theory Spec2Isabelle
  imports Complex_Main
begin

section \<open>JavaScript values used by the two widgets\<close>

text \<open>
  Numbers are modelled as \<^typ>\<open>real\<close> (NaN and the infinities are left out). A value that
  may be \<^verbatim>\<open>undefined\<close> or \<^verbatim>\<open>null\<close> is an \<^typ>\<open>'a option\<close>, \<^const>\<open>None\<close> standing
  for the missing value.
\<close>

text \<open>\<^verbatim>\<open>a[i]\<close> on a JavaScript array: \<^verbatim>\<open>undefined\<close> outside \<^verbatim>\<open>0 .. a.length - 1\<close>.\<close>

definition js_at :: "'a list \<Rightarrow> int \<Rightarrow> 'a option" where
  "js_at xs i = (if 0 \<le> i \<and> i < int (length xs) then Some (xs ! nat i) else None)"

text \<open>\<^verbatim>\<open>x < y\<close> where \<^verbatim>\<open>y\<close> may be \<^verbatim>\<open>undefined\<close>: the comparison is then false.\<close>

fun js_lt :: "real \<Rightarrow> real option \<Rightarrow> bool" where
  "js_lt x None = False"
| "js_lt x (Some y) = (x < y)"

text \<open>\<^verbatim>\<open>Array.prototype.indexOf\<close>: the first position holding the value, \<^verbatim>\<open>-1\<close> if there is none.\<close>

fun indexOf :: "'a list \<Rightarrow> 'a \<Rightarrow> int" where
  "indexOf [] x = - 1"
| "indexOf (y # ys) x =
     (if y = x then 0 else (let k = indexOf ys x in if k < 0 then - 1 else k + 1))"

section \<open>PrintMapPanel: print resolutions and zoom levels\<close>

subsection \<open>\<^verbatim>\<open>getZoomForResolution\<close>\<close>

text \<open>
  The loop of \<^verbatim>\<open>getZoomForResolution\<close>:
  \<^verbatim>\<open>for (var i=0, len=this.printResolutions.length; i<len; i++) {
      if (this.printResolutions[i] < resolution) { break; } }\<close>
  \<open>scan prs resolution i\<close> is the value of \<^verbatim>\<open>i\<close> when the loop, entered with index \<open>i\<close>,
  is left.
\<close>

function scan :: "real list \<Rightarrow> real option \<Rightarrow> nat \<Rightarrow> nat" where
  "scan prs resolution i =
     (if i < length prs
      then (if js_lt (prs ! i) resolution then i else scan prs resolution (Suc i))
      else i)"
  by pat_completeness auto
termination
  by (relation "measure (\<lambda>(prs, resolution, i). length prs - i)") auto

declare scan.simps [simp del]

text \<open>The array element handed to the source map: \<^verbatim>\<open>this.printResolutions[Math.max(0, i-1)]\<close>.\<close>

definition printResolutionFor :: "real list \<Rightarrow> real option \<Rightarrow> real option" where
  "printResolutionFor prs resolution =
     js_at prs (max 0 (int (scan prs resolution 0) - 1))"

text \<open>
  \<open>zf\<close> is \<^verbatim>\<open>this.sourceMap.getZoomForResolution\<close>, a function of the mapping toolkit; it
  receives \<^verbatim>\<open>undefined\<close> when the list of print resolutions is empty.
\<close>

definition getZoomForResolution ::
  "(real option \<Rightarrow> int) \<Rightarrow> real list \<Rightarrow> real option \<Rightarrow> int" where
  "getZoomForResolution zf prs resolution = zf (printResolutionFor prs resolution)"

subsection \<open>The panel and its collaborators\<close>

text \<open>A layer of the source map; only its visibility is read here.\<close>

record ol_layer =
  layer_name :: string
  visibility :: bool

text \<open>
  \<^verbatim>\<open>this.sourceMap\<close>, a map of the mapping toolkit: its layers, \<^verbatim>\<open>getUnits()\<close>,
  \<^verbatim>\<open>getZoomForResolution\<close> and \<^verbatim>\<open>getResolutionForZoom\<close>.
\<close>

record source_map =
  src_layers :: "ol_layer list"
  src_units :: string
  src_zoomForResolution :: "real option \<Rightarrow> int"
  src_resolutionForZoom :: "int \<Rightarrow> real"

text \<open>The view of the preview map \<^verbatim>\<open>this.map\<close>.\<close>

record view =
  view_zoom :: int
  view_center :: "real \<times> real"

text \<open>
  The state of a PrintMapPanel. \<open>scales\<close> holds the \<^verbatim>\<open>"value"\<close> of each record of
  \<^verbatim>\<open>this.printProvider.scales\<close>, in the store's order; \<open>updating\<close> is \<^verbatim>\<open>this._updating\<close>
  (false when the property is absent); \<open>'pg\<close> is the state of \<^verbatim>\<open>this.printPage\<close>.
\<close>

record 'pg panel =
  sourceMap :: source_map
  scales :: "real list"
  printResolutions :: "real list"
  layers :: "ol_layer list"
  updating :: bool
  mapView :: view
  printPage :: 'pg

text \<open>
  What the panel calls and does not define:
  \<^item> \<open>getResolutionFromScale\<close>: \<^verbatim>\<open>OpenLayers.Util.getResolutionFromScale(scale, units)\<close>;
  \<^item> \<open>clone\<close>: \<^verbatim>\<open>layer.clone()\<close>;
  \<^item> \<open>map_getResolution\<close>: \<^verbatim>\<open>getResolution()\<close> of the preview map in a given view;
  \<^item> \<open>baseLayer_units\<close>: \<^verbatim>\<open>this.map.baseLayer.units\<close>;
  \<^item> \<open>page_scale\<close>: \<^verbatim>\<open>this.printPage.scale.get("value")\<close>;
  \<^item> \<open>page_fit\<close>: \<^verbatim>\<open>this.printPage.fit(this.map, true)\<close> of GeoExt.data.PrintPage, giving the
    fitted page and whether the page notifies its \<^verbatim>\<open>"change"\<close> listeners.
\<close>

record 'pg toolkit =
  getResolutionFromScale :: "real \<Rightarrow> string \<Rightarrow> real"
  clone :: "ol_layer \<Rightarrow> ol_layer"
  map_getResolution :: "view \<Rightarrow> real"
  baseLayer_units :: string
  page_scale :: "'pg \<Rightarrow> real"
  page_fit :: "view \<Rightarrow> 'pg \<Rightarrow> 'pg \<times> bool"

subsection \<open>\<^verbatim>\<open>updatePrintResolutions\<close>\<close>

text \<open>The body of the callback given to \<^verbatim>\<open>this.printProvider.scales.each\<close>, for one scale.\<close>

definition printResolutionOfScale :: "'pg toolkit \<Rightarrow> source_map \<Rightarrow> string \<Rightarrow> real \<Rightarrow> real" where
  "printResolutionOfScale tk sm units s =
     (let res = getResolutionFromScale tk s units;
          zoom = src_zoomForResolution sm (Some res)
      in src_resolutionForZoom sm zoom)"

text \<open>\<^verbatim>\<open>scales.each\<close> with \<^verbatim>\<open>this.printResolutions.push\<close>: one push per record, in order.\<close>

fun scales_each :: "(real \<Rightarrow> real) \<Rightarrow> real list \<Rightarrow> real list \<Rightarrow> real list" where
  "scales_each f [] acc = acc"
| "scales_each f (s # ss) acc = scales_each f ss (acc @ [f s])"

definition updatePrintResolutions :: "'pg toolkit \<Rightarrow> 'pg panel \<Rightarrow> 'pg panel" where
  "updatePrintResolutions tk p =
     (let p0 = p\<lparr>printResolutions := []\<rparr>;
          units = src_units (sourceMap p0)
      in p0\<lparr>printResolutions :=
              scales_each (printResolutionOfScale tk (sourceMap p0) units) (scales p0)
                (printResolutions p0)\<rparr>)"

subsection \<open>The layers copied by \<^verbatim>\<open>initComponent\<close>\<close>

text \<open>
  \<^verbatim>\<open>Ext.each(this.sourceMap.layers, function(layer) {
      var clone = layer.clone();
      layer.getVisibility() === true && this.layers.push(clone); }, this)\<close>
  The callback returns nothing, so the iteration never stops early.
\<close>

fun layers_each :: "(ol_layer \<Rightarrow> ol_layer) \<Rightarrow> ol_layer list \<Rightarrow> ol_layer list \<Rightarrow> ol_layer list" where
  "layers_each cl [] acc = acc"
| "layers_each cl (layer # rest) acc =
     (let clone = cl layer
      in layers_each cl rest (if visibility layer = True then acc @ [clone] else acc))"

definition initComponent_layers :: "'pg toolkit \<Rightarrow> 'pg panel \<Rightarrow> 'pg panel" where
  "initComponent_layers tk p =
     (let p0 = p\<lparr>layers := []\<rparr>
      in p0\<lparr>layers := layers_each (clone tk) (src_layers (sourceMap p0)) (layers p0)\<rparr>)"

subsection \<open>The overridden \<^verbatim>\<open>zoomIn\<close> and \<^verbatim>\<open>zoomOut\<close>\<close>

text \<open>
  \<^verbatim>\<open>Math.min(me.printResolutions.indexOf(this.getResolution()) + 1,
            me.printResolutions.length - 1)\<close> and
  \<^verbatim>\<open>Math.max(me.printResolutions.indexOf(this.getResolution()) - 1, 0)\<close>.
\<close>

definition zoomInIndex :: "real list \<Rightarrow> real \<Rightarrow> int" where
  "zoomInIndex prs cur = min (indexOf prs cur + 1) (int (length prs) - 1)"

definition zoomOutIndex :: "real list \<Rightarrow> real \<Rightarrow> int" where
  "zoomOutIndex prs cur = max (indexOf prs cur - 1) 0"

text \<open>The zoom level handed to \<^verbatim>\<open>this.zoomTo\<close> by each of the two.\<close>

definition zoomIn_level :: "(real option \<Rightarrow> int) \<Rightarrow> real list \<Rightarrow> real \<Rightarrow> int" where
  "zoomIn_level zf prs cur = getZoomForResolution zf prs (js_at prs (zoomInIndex prs cur))"

definition zoomOut_level :: "(real option \<Rightarrow> int) \<Rightarrow> real list \<Rightarrow> real \<Rightarrow> int" where
  "zoomOut_level zf prs cur = getZoomForResolution zf prs (js_at prs (zoomOutIndex prs cur))"

subsection \<open>\<^verbatim>\<open>fitZoom\<close>, \<^verbatim>\<open>updatePage\<close> and the events between them\<close>

text \<open>
  \<^verbatim>\<open>initComponent\<close> registers \<^verbatim>\<open>fitZoom\<close> for the page's \<^verbatim>\<open>"change"\<close> event and
  \<^verbatim>\<open>updatePage\<close> for the preview map's \<^verbatim>\<open>"moveend"\<close> event (lines 220 and 221), so the
  three functions below call each other as the listeners do.

  \<open>zoomTo\<close> stands for \<^verbatim>\<open>this.map.zoomTo\<close> of the mapping toolkit, which is not part of
  these sources. It follows section 5 of the specification, where every callback runs
  synchronously inside the call that causes it: \<open>zoomTo\<close> sets the zoom level and runs the
  \<^verbatim>\<open>"moveend"\<close> listener before it returns. In the same way a \<open>page_fit\<close> that reports a
  change runs the \<^verbatim>\<open>"change"\<close> listener before \<^verbatim>\<open>updatePage\<close> returns.

  \<^verbatim>\<open>delete this._updating\<close> is the assignment of false. The calls terminate because
  \<^verbatim>\<open>updatePage\<close> under the guard calls nothing; the measure is given with the termination
  proof.
\<close>

text \<open>The value of \<^verbatim>\<open>var zoom\<close> in \<^verbatim>\<open>fitZoom\<close>.\<close>

definition fitZoom_level :: "'pg toolkit \<Rightarrow> 'pg panel \<Rightarrow> int" where
  "fitZoom_level tk p =
     getZoomForResolution (src_zoomForResolution (sourceMap p)) (printResolutions p)
       (Some (getResolutionFromScale tk (page_scale tk (printPage p)) (baseLayer_units tk)))"

function fitZoom :: "'pg toolkit \<Rightarrow> 'pg panel \<Rightarrow> 'pg panel"
  and zoomTo :: "'pg toolkit \<Rightarrow> int \<Rightarrow> 'pg panel \<Rightarrow> 'pg panel"
  and updatePage :: "'pg toolkit \<Rightarrow> 'pg panel \<Rightarrow> 'pg panel"
where
  "fitZoom tk p =
     (let zoom = fitZoom_level tk p;
          p1 = p\<lparr>updating := True\<rparr>;
          p2 = (if view_zoom (mapView p1) \<noteq> zoom then zoomTo tk zoom p1 else p1)
      in p2\<lparr>updating := False\<rparr>)"
| "zoomTo tk zoom p = updatePage tk (p\<lparr>mapView := (mapView p)\<lparr>view_zoom := zoom\<rparr>\<rparr>)"
| "updatePage tk p =
     (if \<not> updating p
      then (let r = page_fit tk (mapView p) (printPage p);
                p1 = p\<lparr>printPage := fst r\<rparr>
            in if snd r then fitZoom tk p1 else p1)
      else p)"
  by pat_completeness auto
termination
  by (relation "measure (\<lambda>c. case c of
          Inl (tk, p) \<Rightarrow> 2
        | Inr (Inl (tk, zoom, p)) \<Rightarrow> (if updating p then 1 else 4)
        | Inr (Inr (tk, p)) \<Rightarrow> (if updating p then 0 else 3))") auto

declare fitZoom.simps [simp del] zoomTo.simps [simp del] updatePage.simps [simp del]

definition zoomIn :: "'pg toolkit \<Rightarrow> 'pg panel \<Rightarrow> 'pg panel" where
  "zoomIn tk p =
     zoomTo tk (zoomIn_level (src_zoomForResolution (sourceMap p)) (printResolutions p)
                  (map_getResolution tk (mapView p))) p"

definition zoomOut :: "'pg toolkit \<Rightarrow> 'pg panel \<Rightarrow> 'pg panel" where
  "zoomOut tk p =
     zoomTo tk (zoomOut_level (src_zoomForResolution (sourceMap p)) (printResolutions p)
                  (map_getResolution tk (mapView p))) p"

section \<open>WMSLegend of the legend panel example\<close>

subsection \<open>Layer, map and legend items\<close>

record bounds =
  b_left :: real
  b_bottom :: real
  b_right :: real
  b_top :: real

record image_size =
  size_w :: real
  size_h :: real

text \<open>\<^verbatim>\<open>layer.map\<close>: \<open>extent\<close> is what \<^verbatim>\<open>getExtent()\<close> returns, \<^verbatim>\<open>null\<close> before a view is set.\<close>

record ol_map =
  extent :: "bounds option"

text \<open>\<^verbatim>\<open>BBOX\<close> is the string of \<^verbatim>\<open>bounds.toBBOX\<close> or the array of \<^verbatim>\<open>bounds.toArray\<close>.\<close>

datatype bbox_value = BBoxString string | BBoxArray "real list"

text \<open>The object \<^verbatim>\<open>newParams\<close>; \<open>LAYERS\<close> is \<^const>\<open>None\<close> when the key is not set.\<close>

record params =
  BBOX :: bbox_value
  WIDTH :: real
  HEIGHT :: real
  REQUEST :: string
  LAYERS :: "string list option"

text \<open>
  The WMS layer, with the properties and methods \<^verbatim>\<open>getLegendUrl\<close> uses: \<^verbatim>\<open>layer.map\<close>
  (\<^const>\<open>None\<close> when the layer is on no map), \<^verbatim>\<open>layer.encodeBBOX\<close>, \<^verbatim>\<open>layer.legendLayers\<close>
  (\<^const>\<open>None\<close> when not declared), and the layer's own \<^verbatim>\<open>adjustBounds\<close>,
  \<^verbatim>\<open>getImageSize\<close>, \<^verbatim>\<open>reverseAxisOrder()\<close> and \<^verbatim>\<open>getFullRequestString\<close>.
\<close>

record wms_layer =
  layer_map :: "ol_map option"
  encodeBBOX :: bool
  legendLayers :: "string list option"
  adjustBounds :: "bounds \<Rightarrow> bounds"
  getImageSize :: "bounds \<Rightarrow> image_size"
  reverseAxisOrder :: bool
  getFullRequestString :: "params \<Rightarrow> string"

text \<open>A component of the legend: its xtype and the URL given by \<^verbatim>\<open>setUrl\<close> or at creation.\<close>

record item =
  xtype :: string
  url :: "string option"

text \<open>
  The legend component: \<open>layerRecord\<close> is \<^verbatim>\<open>this.layerRecord.getLayer()\<close>, \<open>layouts\<close> counts
  the calls of \<^verbatim>\<open>doLayout\<close>.
\<close>

record legend =
  layerRecord :: "wms_layer option"
  itemXType :: string
  items :: "item list"
  layouts :: nat

text \<open>
  Library functions: \<open>isXType x t\<close> tells whether a component created with xtype \<open>x\<close>
  answers true to \<^verbatim>\<open>isXType(t)\<close>; \<open>hasSetUrl x\<close> tells whether such a component has a
  \<^verbatim>\<open>setUrl\<close> method, as a legend image has and a plain label has not; \<open>toBBOX\<close> and
  \<open>toArray\<close> are the two serialisers of a bounds object, the flag being the axis order.
\<close>

record ext_lib =
  isXType :: "string \<Rightarrow> string \<Rightarrow> bool"
  hasSetUrl :: "string \<Rightarrow> bool"
  toBBOX :: "bounds \<Rightarrow> bool \<Rightarrow> string"
  toArray :: "bounds \<Rightarrow> bool \<Rightarrow> real list"

datatype js_error = TypeError

subsection \<open>\<^verbatim>\<open>getLegendUrl\<close>\<close>

text \<open>The parameters built inside the \<^verbatim>\<open>if\<close> of \<^verbatim>\<open>getLegendUrl\<close>, for the map extent \<open>ext\<close>.\<close>

definition newParams :: "ext_lib \<Rightarrow> wms_layer \<Rightarrow> bounds \<Rightarrow> params" where
  "newParams lib layer ext =
     (let bounds = adjustBounds layer ext;
          imageSize = getImageSize layer bounds;
          rev = reverseAxisOrder layer
      in \<lparr> BBOX = (if encodeBBOX layer then BBoxString (toBBOX lib bounds rev)
                   else BBoxArray (toArray lib bounds rev)),
           WIDTH = size_w imageSize,
           HEIGHT = size_h imageSize,
           REQUEST = ''GetLegendGraphic'',
           LAYERS = (case legendLayers layer of None \<Rightarrow> None | Some names \<Rightarrow> Some names) \<rparr>)"

text \<open>
  \<^verbatim>\<open>getLegendUrl\<close>: reading \<^verbatim>\<open>layer.map\<close> of a missing layer throws; otherwise the result
  is the request string, or \<^verbatim>\<open>undefined\<close> when the \<^verbatim>\<open>if\<close> is not entered.
\<close>

definition getLegendUrl :: "ext_lib \<Rightarrow> legend \<Rightarrow> js_error + string option" where
  "getLegendUrl lib w =
     (case layerRecord w of
        None \<Rightarrow> Inl TypeError
      | Some layer \<Rightarrow>
          (case layer_map layer of
             None \<Rightarrow> Inr None
           | Some m \<Rightarrow>
               (case extent m of
                  None \<Rightarrow> Inr None
                | Some ext \<Rightarrow> Inr (Some (getFullRequestString layer (newParams lib layer ext))))))"

subsection \<open>\<^verbatim>\<open>update\<close>\<close>

text \<open>
  \<^verbatim>\<open>this.items.find(function(item){ return item.isXType('label'); })\<close>: the position of the
  first label, \<^const>\<open>None\<close> for \<^verbatim>\<open>null\<close>. Components are told apart by their position.
\<close>

fun items_find :: "ext_lib \<Rightarrow> item list \<Rightarrow> nat \<Rightarrow> nat option" where
  "items_find lib [] i = None"
| "items_find lib (c # cs) i =
     (if isXType lib (xtype c) ''label'' then Some i else items_find lib cs (Suc i))"

text \<open>
  \<^verbatim>\<open>this.items.each(function(cmp) {
      if(cmp !== textCmp) { found = true; cmp.setUrl(this.getLegendUrl()); } }, this)\<close>
  from position \<open>i\<close> on; the result is the value of \<^verbatim>\<open>found\<close> and the items. The argument
  \<^verbatim>\<open>this.getLegendUrl()\<close> is evaluated first; calling \<^verbatim>\<open>setUrl\<close> on a component that has no
  such method throws, and the exception ends \<^verbatim>\<open>update\<close>.
\<close>

fun items_each :: "ext_lib \<Rightarrow> legend \<Rightarrow> nat option \<Rightarrow> nat \<Rightarrow> item list \<Rightarrow> js_error + (bool \<times> item list)" where
  "items_each lib w textCmp i [] = Inr (False, [])"
| "items_each lib w textCmp i (cmp # cs) =
     (if Some i \<noteq> textCmp
      then (case getLegendUrl lib w of
              Inl e \<Rightarrow> Inl e
            | Inr u \<Rightarrow>
                (if hasSetUrl lib (xtype cmp)
                 then (case items_each lib w textCmp (Suc i) cs of
                         Inl e \<Rightarrow> Inl e
                       | Inr r \<Rightarrow> Inr (True, cmp\<lparr>url := u\<rparr> # snd r))
                 else Inl TypeError))
      else (case items_each lib w textCmp (Suc i) cs of
              Inl e \<Rightarrow> Inl e
            | Inr r \<Rightarrow> Inr (fst r, cmp # snd r)))"

definition doLayout :: "legend \<Rightarrow> legend" where
  "doLayout w = w\<lparr>layouts := Suc (layouts w)\<rparr>"

text \<open>Lines 31 to 47 of \<^verbatim>\<open>update\<close>: what the specification calls reconcileLegendItems.\<close>

definition reconcileLegendItems :: "ext_lib \<Rightarrow> legend \<Rightarrow> js_error + legend" where
  "reconcileLegendItems lib w =
     (let textCmp = items_find lib (items w) 0
      in case items_each lib w textCmp 0 (items w) of
           Inl e \<Rightarrow> Inl e
         | Inr r \<Rightarrow>
             (if fst r = False
              then (case getLegendUrl lib w of
                      Inl e \<Rightarrow> Inl e
                    | Inr u \<Rightarrow>
                        Inr (doLayout (w\<lparr>items := snd r @ [\<lparr>xtype = itemXType w, url = u\<rparr>]\<rparr>)))
              else Inr (doLayout (w\<lparr>items := snd r\<rparr>))))"

text \<open>
  \<^verbatim>\<open>update\<close>; \<open>super_update\<close> is \<^verbatim>\<open>GeoExt.WMSLegend.superclass.update\<close>. The function
  returns nothing, the result is the state it leaves.
\<close>

definition update :: "ext_lib \<Rightarrow> (legend \<Rightarrow> legend) \<Rightarrow> legend \<Rightarrow> js_error + legend" where
  "update lib super_update w =
     (case layerRecord w of
        None \<Rightarrow> Inr w
      | Some layer \<Rightarrow>
          (case layer_map layer of
             None \<Rightarrow> Inr w
           | Some m \<Rightarrow> reconcileLegendItems lib (super_update w)))"

section \<open>Properties of the print map panel\<close>

subsection \<open>The scan of \<^verbatim>\<open>getZoomForResolution\<close>\<close>

lemma scan_example: "scan [100, 50, 25, 10] (Some 60) 0 = 1"
  by (simp add: scan.simps [of _ _ 0] scan.simps [of _ _ "Suc 0"])

text \<open>
  C1: for the print resolutions \<open>[100, 50, 25, 10]\<close> and the target 60 the scan stops at
  index 1, the first entry (50) strictly less than the target; the entry immediately before
  it, 100, is selected and handed to the map's resolution-to-zoom function.
\<close>

theorem C1_zoom_for_60_selects_100:
  "scan [100, 50, 25, 10] (Some 60) 0 = 1
   \<and> js_at [100, 50, 25, 10 :: real] 1 = Some 50 \<and> js_lt 50 (Some 60)
   \<and> \<not> js_lt 100 (Some 60)
   \<and> printResolutionFor [100, 50, 25, 10] (Some 60) = Some 100
   \<and> getZoomForResolution zf [100, 50, 25, 10] (Some 60) = zf (Some 100)"
  by (simp add: getZoomForResolution_def printResolutionFor_def js_at_def scan_example)

lemma scan_ge: "i \<le> scan prs r i"
proof (induction prs r i rule: scan.induct)
  case (1 prs r i)
  show ?case
  proof (cases "i < length prs \<and> \<not> js_lt (prs ! i) r")
    case True
    with "1.IH" have "Suc i \<le> scan prs r (Suc i)" by simp
    with True show ?thesis by (simp add: scan.simps [of prs r i])
  next
    case False
    then show ?thesis by (auto simp add: scan.simps [of prs r i])
  qed
qed

lemma scan_le_length: "i \<le> length prs \<Longrightarrow> scan prs r i \<le> length prs"
proof (induction prs r i rule: scan.induct)
  case (1 prs r i)
  show ?case
  proof (cases "i < length prs \<and> \<not> js_lt (prs ! i) r")
    case True
    with "1.IH" have "scan prs r (Suc i) \<le> length prs" by simp
    with True show ?thesis by (simp add: scan.simps [of prs r i])
  next
    case False
    with "1.prems" show ?thesis by (auto simp add: scan.simps [of prs r i])
  qed
qed

lemma scan_stop: "scan prs r i < length prs \<Longrightarrow> js_lt (prs ! scan prs r i) r"
proof (induction prs r i rule: scan.induct)
  case (1 prs r i)
  show ?case
  proof (cases "i < length prs \<and> \<not> js_lt (prs ! i) r")
    case True
    then have eq: "scan prs r i = scan prs r (Suc i)" by (simp add: scan.simps [of prs r i])
    with "1.IH" "1.prems" True show ?thesis by simp
  next
    case False
    with "1.prems" show ?thesis by (auto simp add: scan.simps [of prs r i])
  qed
qed

lemma scan_skipped: "i \<le> j \<Longrightarrow> j < scan prs r i \<Longrightarrow> \<not> js_lt (prs ! j) r"
proof (induction prs r i rule: scan.induct)
  case (1 prs r i)
  show ?case
  proof (cases "i < length prs \<and> \<not> js_lt (prs ! i) r")
    case True
    then have eq: "scan prs r i = scan prs r (Suc i)" by (simp add: scan.simps [of prs r i])
    show ?thesis
    proof (cases "j = i")
      case True
      with \<open>i < length prs \<and> \<not> js_lt (prs ! i) r\<close> show ?thesis by simp
    next
      case False
      with "1.prems" have "Suc i \<le> j" by simp
      with "1.IH" "1.prems" True eq show ?thesis by simp
    qed
  next
    case False
    with "1.prems" show ?thesis by (auto simp add: scan.simps [of prs r i] split: if_splits)
  qed
qed

lemma scan_antimono: "t1 \<le> t2 \<Longrightarrow> scan prs (Some t2) i \<le> scan prs (Some t1) i"
proof (induction prs "Some t1" i rule: scan.induct)
  case (1 prs i)
  show ?case
  proof (cases "i < length prs")
    case False
    then show ?thesis by (simp add: scan.simps [of prs _ i])
  next
    case inb: True
    show ?thesis
    proof (cases "prs ! i < t1")
      case True
      with "1.prems" have "prs ! i < t2" by simp
      with True inb show ?thesis by (simp add: scan.simps [of prs _ i])
    next
      case False
      with inb have e1: "scan prs (Some t1) i = scan prs (Some t1) (Suc i)"
        by (simp add: scan.simps [of prs _ i])
      from "1.hyps" inb False "1.prems"
      have ih: "scan prs (Some t2) (Suc i) \<le> scan prs (Some t1) (Suc i)" by simp
      have "scan prs (Some t2) i \<le> scan prs (Some t2) (Suc i)"
        using inb scan_ge [of "Suc i" prs "Some t2"] by (simp add: scan.simps [of prs _ i])
      with ih e1 show ?thesis by simp
    qed
  qed
qed

lemma printResolutionFor_nth:
  assumes "prs \<noteq> []"
  shows "printResolutionFor prs r = Some (prs ! (scan prs r 0 - 1))"
proof -
  have "scan prs r 0 \<le> length prs" by (simp add: scan_le_length)
  moreover from assms have "0 < length prs" by simp
  ultimately have "scan prs r 0 - 1 < length prs" by arith
  then have "int (scan prs r 0) - 1 < int (length prs)" by arith
  moreover have "nat (max 0 (int (scan prs r 0) - 1)) = scan prs r 0 - 1" by arith
  ultimately show ?thesis using assms
    by (simp add: printResolutionFor_def js_at_def)
qed

lemma printResolutionFor_in_set:
  assumes "prs \<noteq> []"
  shows "\<exists>x\<in>set prs. printResolutionFor prs r = Some x"
proof -
  have "scan prs r 0 \<le> length prs" by (simp add: scan_le_length)
  moreover from assms have "0 < length prs" by simp
  ultimately have "scan prs r 0 - 1 < length prs" by arith
  then have "prs ! (scan prs r 0 - 1) \<in> set prs" by simp
  with printResolutionFor_nth [OF assms] show ?thesis by blast
qed

text \<open>
  C2 (amended): when the print resolutions are listed in non-increasing order and the list is
  not empty, the selected resolution is monotonic in the target: a smaller target never
  selects a larger resolution.
\<close>

theorem C2_monotonic_on_descending_list:
  assumes ne: "prs \<noteq> []" and desc: "sorted_wrt (\<lambda>a b. b \<le> a) prs" and lt: "t1 < t2"
  shows "\<exists>r1 r2. printResolutionFor prs (Some t1) = Some r1
           \<and> printResolutionFor prs (Some t2) = Some r2 \<and> r1 \<le> r2"
proof -
  let ?k1 = "scan prs (Some t1) 0 - 1" and ?k2 = "scan prs (Some t2) 0 - 1"
  from lt have "scan prs (Some t2) 0 \<le> scan prs (Some t1) 0"
    by (simp add: scan_antimono)
  then have le: "?k2 \<le> ?k1" by arith
  have "scan prs (Some t1) 0 \<le> length prs" by (simp add: scan_le_length)
  with ne have b1: "?k1 < length prs" by (cases prs) auto
  have "prs ! ?k1 \<le> prs ! ?k2"
  proof (cases "?k2 = ?k1")
    case True
    then show ?thesis by simp
  next
    case False
    with le have "?k2 < ?k1" by simp
    then show ?thesis using sorted_wrt_nth_less [OF desc _ b1] by simp
  qed
  with printResolutionFor_nth [OF ne] show ?thesis by simp
qed

theorem C2_monotonic_witness:
  "[100, 50, 25, 10 :: real] \<noteq> [] \<and> sorted_wrt (\<lambda>a b. b \<le> a) [100, 50, 25, 10 :: real]
   \<and> (30::real) < 60
   \<and> (\<exists>r1 r2. printResolutionFor [100, 50, 25, 10] (Some 30) = Some r1
          \<and> printResolutionFor [100, 50, 25, 10] (Some 60) = Some r2 \<and> r1 \<le> r2)"
  using C2_monotonic_on_descending_list [of "[100, 50, 25, 10]" 30 60] by simp

text \<open>
  On a list that is not in non-increasing order the claim fails: with \<open>[10, 100, 5]\<close> the target
  7 selects 100 and the larger target 50 selects 10.
\<close>

theorem C2_counterexample:
  "(7::real) < 50
   \<and> printResolutionFor [10, 100, 5] (Some 7) = Some 100
   \<and> printResolutionFor [10, 100, 5] (Some 50) = Some 10
   \<and> \<not> ((100::real) \<le> 10)"
  by (simp add: printResolutionFor_def js_at_def scan.simps [of _ _ 0] scan.simps [of _ _ "Suc 0"]
        scan.simps [of _ _ "Suc (Suc 0)"])

subsection \<open>The zoom steps\<close>

lemma indexOf_bounds: "- 1 \<le> indexOf xs x \<and> indexOf xs x < int (length xs)"
  by (induction xs) (auto simp: Let_def)

lemma indexOf_nth: "0 \<le> indexOf xs x \<Longrightarrow> xs ! nat (indexOf xs x) = x"
proof (induction xs)
  case Nil
  then show ?case by simp
next
  case (Cons y ys)
  show ?case
  proof (cases "y = x")
    case True
    then show ?thesis by simp
  next
    case False
    with Cons.prems have k: "0 \<le> indexOf ys x" by (simp add: Let_def split: if_splits)
    with False have "indexOf (y # ys) x = indexOf ys x + 1" by (simp add: Let_def)
    moreover have "nat (indexOf ys x + 1) = Suc (nat (indexOf ys x))" using k by simp
    ultimately show ?thesis using Cons.IH k by simp
  qed
qed

lemma indexOf_mem: "x \<in> set xs \<Longrightarrow> 0 \<le> indexOf xs x"
  by (induction xs) (auto simp: Let_def)

lemma zoomInIndex_range:
  "prs \<noteq> [] \<Longrightarrow> 0 \<le> zoomInIndex prs cur \<and> zoomInIndex prs cur < int (length prs)"
  using indexOf_bounds [of prs cur] by (cases prs) (auto simp: zoomInIndex_def)

lemma zoomOutIndex_range:
  "prs \<noteq> [] \<Longrightarrow> 0 \<le> zoomOutIndex prs cur \<and> zoomOutIndex prs cur < int (length prs)"
  using indexOf_bounds [of prs cur] by (cases prs) (auto simp: zoomOutIndex_def)

lemma js_at_in_set: "0 \<le> i \<Longrightarrow> i < int (length xs) \<Longrightarrow> \<exists>x\<in>set xs. js_at xs i = Some x"
  by (simp add: js_at_def)

lemma scan_all_ge:
  assumes "\<forall>x\<in>set prs. \<not> js_lt x r" and "i \<le> length prs"
  shows "scan prs r i = length prs"
proof (rule ccontr)
  assume "scan prs r i \<noteq> length prs"
  with scan_le_length [OF assms(2), of r] have lt: "scan prs r i < length prs" by simp
  then have "js_lt (prs ! scan prs r i) r" by (rule scan_stop)
  moreover from lt have "prs ! scan prs r i \<in> set prs" by simp
  ultimately show False using assms(1) by blast
qed

lemma descending_last_least:
  assumes "sorted_wrt (\<lambda>a b. b \<le> a) prs" and "x \<in> set prs"
  shows "last prs \<le> (x::real)"
proof -
  from assms(2) obtain i where i: "i < length prs" "prs ! i = x" by (auto simp: in_set_conv_nth)
  then have ne: "prs \<noteq> []" by auto
  show ?thesis
  proof (cases "i = length prs - 1")
    case True
    with i ne show ?thesis by (simp add: last_conv_nth)
  next
    case False
    with i have "i < length prs - 1" by simp
    moreover from ne have "length prs - 1 < length prs" by simp
    ultimately have "prs ! (length prs - 1) \<le> prs ! i"
      using sorted_wrt_nth_less [OF assms(1)] by blast
    with i ne show ?thesis by (simp add: last_conv_nth)
  qed
qed

lemma descending_nth_le:
  assumes "sorted_wrt (\<lambda>a b. b \<le> a) prs" and "i \<le> j" and "j < length prs"
  shows "prs ! j \<le> (prs ! i :: real)"
proof (cases "i = j")
  case True
  then show ?thesis by simp
next
  case False
  with assms(2) have "i < j" by simp
  then show ?thesis using sorted_wrt_nth_less [OF assms(1) _ assms(3)] by simp
qed

lemma printResolutionFor_last:
  assumes ne: "prs \<noteq> []" and desc: "sorted_wrt (\<lambda>a b. b \<le> a) prs"
  shows "printResolutionFor prs (Some (last prs)) = Some (last prs)"
proof -
  have "\<forall>x\<in>set prs. \<not> js_lt x (Some (last prs))"
    using descending_last_least [OF desc] by (simp add: not_less)
  then have "scan prs (Some (last prs)) 0 = length prs" by (simp add: scan_all_ge)
  with printResolutionFor_nth [OF ne, of "Some (last prs)"] ne show ?thesis
    by (simp add: last_conv_nth)
qed

lemma printResolutionFor_hd:
  assumes ne: "prs \<noteq> []" and desc: "sorted_wrt (\<lambda>a b. b \<le> a) prs"
  shows "printResolutionFor prs (Some (hd prs)) = Some (hd prs)"
proof -
  let ?k = "scan prs (Some (hd prs)) 0"
  from ne have hd0: "hd prs = prs ! 0" by (simp add: hd_conv_nth)
  have kle: "?k \<le> length prs" by (simp add: scan_le_length)
  with ne have kb: "?k - 1 < length prs" by (cases prs) auto
  have pos: "0 < ?k"
  proof (rule ccontr)
    assume "\<not> 0 < ?k"
    then have z: "?k = 0" by simp
    with ne have "?k < length prs" by simp
    then have "js_lt (prs ! ?k) (Some (hd prs))" by (rule scan_stop)
    with z hd0 show False by simp
  qed
  then have "?k - 1 < ?k" by simp
  then have "\<not> js_lt (prs ! (?k - 1)) (Some (hd prs))" using scan_skipped [of 0 "?k - 1" prs "Some (hd prs)"] by simp
  then have ge: "hd prs \<le> prs ! (?k - 1)" by (simp add: not_less)
  have "prs ! (?k - 1) \<le> prs ! 0" using descending_nth_le [OF desc _ kb] by simp
  with ge hd0 have "prs ! (?k - 1) = hd prs" by simp
  with printResolutionFor_nth [OF ne, of "Some (hd prs)"] show ?thesis by simp
qed

lemma zoomIn_at_last:
  assumes ne: "prs \<noteq> []" and desc: "sorted_wrt (\<lambda>a b. b \<le> a) prs"
  shows "js_at prs (zoomInIndex prs (last prs)) = Some (last prs)"
proof -
  let ?j = "indexOf prs (last prs)" and ?i = "zoomInIndex prs (last prs)"
  from zoomInIndex_range [OF ne] have r: "0 \<le> ?i" "?i < int (length prs)" by auto
  then have ib: "nat ?i < length prs" by simp
  then have "prs ! nat ?i \<in> set prs" by simp
  then have lo: "last prs \<le> prs ! nat ?i" by (rule descending_last_least [OF desc])
  have hi: "prs ! nat ?i \<le> last prs"
  proof (cases "0 \<le> ?j")
    case True
    then have at: "prs ! nat ?j = last prs" by (rule indexOf_nth)
    from True indexOf_bounds [of prs "last prs"] have "nat ?j \<le> nat ?i"
      by (simp add: zoomInIndex_def)
    then have "prs ! nat ?i \<le> prs ! nat ?j" using descending_nth_le [OF desc _ ib] by simp
    with at show ?thesis by simp
  next
    case False
    moreover from ne have "0 \<le> ?j" by (simp add: indexOf_mem)
    ultimately show ?thesis by simp
  qed
  from lo hi have "prs ! nat ?i = last prs" by simp
  with r show ?thesis by (simp add: js_at_def)
qed

lemma zoomOut_at_hd:
  assumes ne: "prs \<noteq> []"
  shows "js_at prs (zoomOutIndex prs (hd prs)) = Some (hd prs)"
  using ne by (cases prs) (simp_all add: zoomOutIndex_def js_at_def)

text \<open>
  C9 (amended): for every non-empty list of print resolutions, the index computed by the
  overridden \<^verbatim>\<open>zoomIn\<close> and \<^verbatim>\<open>zoomOut\<close> lies in \<open>0 .. length - 1\<close>, so the array read is
  never out of bounds and yields an element of the list, and so does the resolution that
  \<^verbatim>\<open>getZoomForResolution\<close> then selects for it. At the ends the index does not move:
  \<^verbatim>\<open>zoomIn\<close> from the last position reads the last entry again, \<^verbatim>\<open>zoomOut\<close> from position 0
  reads the first entry again. When the list is in non-increasing order, \<^verbatim>\<open>zoomIn\<close> at the
  finest (last) resolution zooms to the level of that resolution and \<^verbatim>\<open>zoomOut\<close> at the
  coarsest (first) to the level of that one.
\<close>

theorem C9_zoom_steps_stay_in_list:
  assumes ne: "prs \<noteq> []"
  shows "0 \<le> zoomInIndex prs cur \<and> zoomInIndex prs cur < int (length prs)
    \<and> 0 \<le> zoomOutIndex prs cur \<and> zoomOutIndex prs cur < int (length prs)
    \<and> (\<exists>r\<in>set prs. js_at prs (zoomInIndex prs cur) = Some r)
    \<and> (\<exists>r\<in>set prs. js_at prs (zoomOutIndex prs cur) = Some r)
    \<and> (\<exists>r\<in>set prs. printResolutionFor prs (js_at prs (zoomInIndex prs cur)) = Some r
          \<and> zoomIn_level zf prs cur = zf (Some r))
    \<and> (\<exists>r\<in>set prs. printResolutionFor prs (js_at prs (zoomOutIndex prs cur)) = Some r
          \<and> zoomOut_level zf prs cur = zf (Some r))
    \<and> (indexOf prs fine = int (length prs) - 1 \<longrightarrow> js_at prs (zoomInIndex prs fine) = Some fine)
    \<and> (indexOf prs coarse = 0 \<longrightarrow> js_at prs (zoomOutIndex prs coarse) = Some coarse)
    \<and> (sorted_wrt (\<lambda>a b. b \<le> a) prs \<longrightarrow>
          zoomIn_level zf prs (last prs) = zf (Some (last prs))
          \<and> zoomOut_level zf prs (hd prs) = zf (Some (hd prs)))"
proof -
  note ri = zoomInIndex_range [OF ne, of cur] and ro = zoomOutIndex_range [OF ne, of cur]
  have a: "\<exists>r\<in>set prs. js_at prs (zoomInIndex prs cur) = Some r"
    using ri by (simp add: js_at_in_set)
  have b: "\<exists>r\<in>set prs. js_at prs (zoomOutIndex prs cur) = Some r"
    using ro by (simp add: js_at_in_set)
  have c: "\<exists>r\<in>set prs. printResolutionFor prs (js_at prs (zoomInIndex prs cur)) = Some r
          \<and> zoomIn_level zf prs cur = zf (Some r)"
    using printResolutionFor_in_set [OF ne, of "js_at prs (zoomInIndex prs cur)"]
    by (auto simp: zoomIn_level_def getZoomForResolution_def)
  have d: "\<exists>r\<in>set prs. printResolutionFor prs (js_at prs (zoomOutIndex prs cur)) = Some r
          \<and> zoomOut_level zf prs cur = zf (Some r)"
    using printResolutionFor_in_set [OF ne, of "js_at prs (zoomOutIndex prs cur)"]
    by (auto simp: zoomOut_level_def getZoomForResolution_def)
  have e: "indexOf prs fine = int (length prs) - 1 \<longrightarrow> js_at prs (zoomInIndex prs fine) = Some fine"
  proof
    assume h: "indexOf prs fine = int (length prs) - 1"
    with ne have "0 \<le> indexOf prs fine" by (cases prs) auto
    then have "prs ! nat (indexOf prs fine) = fine" by (rule indexOf_nth)
    with h ne show "js_at prs (zoomInIndex prs fine) = Some fine"
      by (simp add: zoomInIndex_def js_at_def)
  qed
  have f: "indexOf prs coarse = 0 \<longrightarrow> js_at prs (zoomOutIndex prs coarse) = Some coarse"
  proof
    assume h: "indexOf prs coarse = 0"
    then have "prs ! nat (indexOf prs coarse) = coarse" using indexOf_nth [of prs coarse] by simp
    with h ne show "js_at prs (zoomOutIndex prs coarse) = Some coarse"
      by (simp add: zoomOutIndex_def js_at_def)
  qed
  have g: "sorted_wrt (\<lambda>a b. b \<le> a) prs \<longrightarrow>
          zoomIn_level zf prs (last prs) = zf (Some (last prs))
          \<and> zoomOut_level zf prs (hd prs) = zf (Some (hd prs))"
    by (simp add: zoomIn_level_def zoomOut_level_def getZoomForResolution_def
          zoomIn_at_last [OF ne] zoomOut_at_hd [OF ne] printResolutionFor_last [OF ne]
          printResolutionFor_hd [OF ne])
  from ri ro a b c d e f g show ?thesis by blast
qed

theorem C9_zoom_steps_witness:
  "[100, 50, 25, 10 :: real] \<noteq> []
   \<and> indexOf [100, 50, 25, 10 :: real] 10 = int (length [100, 50, 25, 10 :: real]) - 1
   \<and> indexOf [100, 50, 25, 10 :: real] 100 = 0
   \<and> sorted_wrt (\<lambda>a b. b \<le> a) [100, 50, 25, 10 :: real]
   \<and> zoomInIndex [100, 50, 25, 10] 50 = 2 \<and> zoomOutIndex [100, 50, 25, 10] 50 = 0
   \<and> js_at [100, 50, 25, 10 :: real] (zoomInIndex [100, 50, 25, 10] 10) = Some 10
   \<and> js_at [100, 50, 25, 10 :: real] (zoomOutIndex [100, 50, 25, 10] 100) = Some 100
   \<and> zoomIn_level (\<lambda>r. case r of None \<Rightarrow> 0 | Some x \<Rightarrow> \<lfloor>x\<rfloor>) [100, 50, 25, 10] 10 = 10
   \<and> zoomOut_level (\<lambda>r. case r of None \<Rightarrow> 0 | Some x \<Rightarrow> \<lfloor>x\<rfloor>) [100, 50, 25, 10] 100 = 100"
  using C9_zoom_steps_stay_in_list [of "[100, 50, 25, 10]" 50
      "\<lambda>r. case r of None \<Rightarrow> 0 | Some x \<Rightarrow> \<lfloor>x\<rfloor>" 10 100]
  by (simp add: zoomInIndex_def zoomOutIndex_def Let_def)

text \<open>
  On a list that is not in non-increasing order the steps need not stay at the ends. With
  \<open>[10, 5, 100]\<close> and the map at the finest resolution 5, \<^verbatim>\<open>zoomIn\<close> reads 100 and
  \<^verbatim>\<open>getZoomForResolution\<close> selects 10 for it; with \<open>[5, 100, 10]\<close> and the map at the coarsest
  resolution 100, \<^verbatim>\<open>zoomOut\<close> reads 5 and 10 is selected.
\<close>

theorem C9_counterexample:
  "(5::real) \<le> 10 \<and> (5::real) \<le> 100
   \<and> zoomInIndex [10, 5, 100] 5 = 2
   \<and> js_at [10, 5, 100 :: real] (zoomInIndex [10, 5, 100] 5) = Some 100
   \<and> printResolutionFor [10, 5, 100] (Some 100) = Some 10
   \<and> zoomIn_level (case_option 0 floor) [10, 5, 100] 5 = 10
   \<and> (5::real) \<le> 100 \<and> (10::real) \<le> 100
   \<and> zoomOutIndex [5, 100, 10] 100 = 0
   \<and> js_at [5, 100, 10 :: real] (zoomOutIndex [5, 100, 10] 100) = Some 5
   \<and> printResolutionFor [5, 100, 10] (Some 5) = Some 10
   \<and> zoomOut_level (case_option 0 floor) [5, 100, 10] 100 = 10"
  by (simp add: zoomInIndex_def zoomOutIndex_def zoomIn_level_def zoomOut_level_def
        getZoomForResolution_def printResolutionFor_def js_at_def Let_def
        scan.simps [of _ _ 0] scan.simps [of _ _ "Suc 0"] scan.simps [of _ _ "Suc (Suc 0)"]
        scan.simps [of _ _ "Suc (Suc (Suc 0))"])

subsection \<open>\<^verbatim>\<open>updatePrintResolutions\<close>\<close>

lemma scales_each_map: "scales_each f ss acc = acc @ map f ss"
  by (induction ss arbitrary: acc) auto

text \<open>
  C5: \<^verbatim>\<open>updatePrintResolutions\<close> maps each scale, in the order of the scale store, to the
  resolution of the source map's zoom level for that scale (resolution from scale, zoom for
  that resolution, resolution for that zoom); the result has one entry per scale, in the same
  order.
\<close>

theorem C5_print_resolutions_follow_scales:
  "printResolutions (updatePrintResolutions tk p) =
     map (printResolutionOfScale tk (sourceMap p) (src_units (sourceMap p))) (scales p)
   \<and> length (printResolutions (updatePrintResolutions tk p)) = length (scales p)
   \<and> (\<forall>i<length (scales p).
        printResolutions (updatePrintResolutions tk p) ! i =
          src_resolutionForZoom (sourceMap p)
            (src_zoomForResolution (sourceMap p)
               (Some (getResolutionFromScale tk (scales p ! i) (src_units (sourceMap p))))))"
  by (simp add: updatePrintResolutions_def scales_each_map printResolutionOfScale_def Let_def)

theorem C5_print_resolutions_witness:
  "(1::nat) < length (scales
      \<lparr> sourceMap = \<lparr> src_layers = [], src_units = ''m'',
            src_zoomForResolution =
              (\<lambda>r. case r of None \<Rightarrow> 0 | Some x \<Rightarrow> if 7 \<le> x then 0 else if 3 \<le> x then 1 else 2),
            src_resolutionForZoom = (\<lambda>z. if z = 0 then 10 else if z = 1 then 5 else 2) \<rparr>,
        scales = [10000, 5000, 2000], printResolutions = [1], layers = [], updating = False,
        mapView = \<lparr> view_zoom = 0, view_center = (0, 0) \<rparr>, printPage = () \<rparr>)
   \<and> printResolutions (updatePrintResolutions
        \<lparr> getResolutionFromScale = (\<lambda>s u. s / 1000), clone = (\<lambda>l. l),
          map_getResolution = (\<lambda>v. 10), baseLayer_units = ''m'', page_scale = (\<lambda>pg. 10000),
          page_fit = (\<lambda>v pg. (pg, False)) \<rparr>
        \<lparr> sourceMap = \<lparr> src_layers = [], src_units = ''m'',
            src_zoomForResolution =
              (\<lambda>r. case r of None \<Rightarrow> 0 | Some x \<Rightarrow> if 7 \<le> x then 0 else if 3 \<le> x then 1 else 2),
            src_resolutionForZoom = (\<lambda>z. if z = 0 then 10 else if z = 1 then 5 else 2) \<rparr>,
        scales = [10000, 5000, 2000], printResolutions = [1], layers = [], updating = False,
        mapView = \<lparr> view_zoom = 0, view_center = (0, 0) \<rparr>, printPage = () \<rparr>) = [10, 5, 2]"
  using C5_print_resolutions_follow_scales
    [of "\<lparr> getResolutionFromScale = (\<lambda>s u. s / 1000), clone = (\<lambda>l. l),
          map_getResolution = (\<lambda>v. 10), baseLayer_units = ''m'', page_scale = (\<lambda>pg. 10000),
          page_fit = (\<lambda>v pg. (pg, False)) \<rparr>"
        "\<lparr> sourceMap = \<lparr> src_layers = [], src_units = ''m'',
            src_zoomForResolution =
              (\<lambda>r. case r of None \<Rightarrow> 0 | Some x \<Rightarrow> if 7 \<le> x then 0 else if 3 \<le> x then 1 else 2),
            src_resolutionForZoom = (\<lambda>z. if z = 0 then 10 else if z = 1 then 5 else 2) \<rparr>,
        scales = [10000, 5000, 2000], printResolutions = [1], layers = [], updating = False,
        mapView = \<lparr> view_zoom = 0, view_center = (0, 0) \<rparr>, printPage = () \<rparr>"]
  by (simp add: printResolutionOfScale_def)

subsection \<open>The copied layers\<close>

lemma layers_each_filter: "layers_each cl ls acc = acc @ map cl (filter visibility ls)"
  by (induction ls arbitrary: acc) (auto simp: Let_def)

text \<open>
  C10: after the layer loop of \<^verbatim>\<open>initComponent\<close> the panel's layers are exactly the clones
  of the source map's layers whose visibility is true, in source order; the source map and
  its layer list are left as they were.
\<close>

theorem C10_visible_layers_cloned_in_order:
  "layers (initComponent_layers tk p) =
     map (clone tk) (filter visibility (src_layers (sourceMap p)))
   \<and> sourceMap (initComponent_layers tk p) = sourceMap p"
  by (simp add: initComponent_layers_def layers_each_filter Let_def)

subsection \<open>The guard between \<^verbatim>\<open>fitZoom\<close> and \<^verbatim>\<open>updatePage\<close>\<close>

lemma updatePage_guarded: "updating q \<Longrightarrow> updatePage tk q = q"
  by (simp add: updatePage.simps)

lemma updatePage_guarded_funpow: "updating q \<Longrightarrow> (updatePage tk ^^ n) q = q"
  by (induction n) (simp_all add: updatePage_guarded)

lemma zoomTo_guarded:
  "updating p \<Longrightarrow> zoomTo tk z p = p\<lparr>mapView := (mapView p)\<lparr>view_zoom := z\<rparr>\<rparr>"
  by (simp add: zoomTo.simps updatePage_guarded)

lemma fitZoom_closed:
  "fitZoom tk p = p\<lparr>mapView := (mapView p)\<lparr>view_zoom := fitZoom_level tk p\<rparr>, updating := False\<rparr>"
proof (cases "view_zoom (mapView p) = fitZoom_level tk p")
  case True
  then have "(mapView p)\<lparr>view_zoom := fitZoom_level tk p\<rparr> = mapView p" by simp
  with True show ?thesis by (simp add: fitZoom.simps Let_def)
next
  case False
  then show ?thesis by (simp add: fitZoom.simps Let_def zoomTo_guarded)
qed

text \<open>
  C6: while \<^verbatim>\<open>_updating\<close> is set, \<^verbatim>\<open>updatePage\<close> changes nothing, however often the
  \<^verbatim>\<open>moveend\<close> listener runs; the \<^verbatim>\<open>zoomTo\<close> that \<^verbatim>\<open>fitZoom\<close> issues under the guard only
  moves the zoom level. Hence \<^verbatim>\<open>fitZoom\<close> returns the panel with the zoom level of the page
  scale, the page untouched and the guard cleared, and a later change of the view
  (\<^verbatim>\<open>moveend\<close> with the view \<open>v\<close>) fits the page to that view.
\<close>

theorem C6_guard_blocks_page_update_during_fitZoom:
  "updatePage tk (q\<lparr>updating := True\<rparr>) = q\<lparr>updating := True\<rparr>
   \<and> (updatePage tk ^^ n) (q\<lparr>updating := True\<rparr>) = q\<lparr>updating := True\<rparr>
   \<and> zoomTo tk z (p\<lparr>updating := True\<rparr>) =
       p\<lparr>updating := True, mapView := (mapView p)\<lparr>view_zoom := z\<rparr>\<rparr>
   \<and> fitZoom tk p =
       p\<lparr>mapView := (mapView p)\<lparr>view_zoom := fitZoom_level tk p\<rparr>, updating := False\<rparr>
   \<and> printPage (fitZoom tk p) = printPage p
   \<and> updating (fitZoom tk p) = False
   \<and> printPage (updatePage tk ((fitZoom tk p)\<lparr>mapView := v\<rparr>)) =
       fst (page_fit tk v (printPage p))"
proof -
  let ?q = "(fitZoom tk p)\<lparr>mapView := v\<rparr>"
  have idle: "\<not> updating ?q" and pg: "printPage ?q = printPage p" and mv: "mapView ?q = v"
    by (simp_all add: fitZoom_closed)
  let ?r = "page_fit tk v (printPage p)"
  have "printPage (updatePage tk ?q) = fst ?r"
  proof (cases "snd ?r")
    case True
    with idle pg mv have "updatePage tk ?q = fitZoom tk (?q\<lparr>printPage := fst ?r\<rparr>)"
      by (simp add: updatePage.simps [of tk ?q] Let_def)
    then show ?thesis by (simp add: fitZoom_closed [of tk "?q\<lparr>printPage := fst ?r\<rparr>"])
  next
    case False
    with idle pg mv have "updatePage tk ?q = ?q\<lparr>printPage := fst ?r\<rparr>"
      by (simp add: updatePage.simps [of tk ?q] Let_def)
    then show ?thesis by simp
  qed
  then show ?thesis
    by (simp add: updatePage_guarded updatePage_guarded_funpow zoomTo_guarded
          fitZoom_closed [of tk p])
qed

section \<open>Properties of the legend\<close>

subsection \<open>\<^verbatim>\<open>getLegendUrl\<close> and the guard of \<^verbatim>\<open>update\<close>\<close>

text \<open>
  C3: for a layer whose \<^verbatim>\<open>map\<close> is null, \<^verbatim>\<open>update\<close> leaves the legend exactly as it was
  (no item added, no URL set, no layout, the superclass update not run) and
  \<^verbatim>\<open>getLegendUrl\<close> returns no URL.
\<close>

theorem C3_detached_layer_no_effect:
  assumes "layerRecord w = Some layer" and "layer_map layer = None"
  shows "update lib super_update w = Inr w \<and> getLegendUrl lib w = Inr None"
  using assms by (simp add: update_def getLegendUrl_def)

theorem C3_detached_layer_witness:
  "layerRecord
     \<lparr> layerRecord = Some
      \<lparr> layer_map = None, encodeBBOX = True, legendLayers = Some [''a'', ''b''],
       adjustBounds = (\<lambda>b. b), getImageSize = (\<lambda>b. \<lparr> size_w = 256, size_h = 256 \<rparr>),
       reverseAxisOrder = False,
       getFullRequestString = (\<lambda>p. ''http://wms?REQUEST=GetLegendGraphic'') \<rparr>,
     itemXType = ''gx_legendimage'', items = [\<lparr> xtype = ''label'', url = None \<rparr>, \<lparr> xtype = ''gx_legendimage'', url = Some ''old'' \<rparr>], layouts = 0 \<rparr>
   = Some
     \<lparr> layer_map = None, encodeBBOX = True, legendLayers = Some [''a'', ''b''],
       adjustBounds = (\<lambda>b. b), getImageSize = (\<lambda>b. \<lparr> size_w = 256, size_h = 256 \<rparr>),
       reverseAxisOrder = False,
       getFullRequestString = (\<lambda>p. ''http://wms?REQUEST=GetLegendGraphic'') \<rparr>
   \<and> layer_map
     \<lparr> layer_map = None, encodeBBOX = True, legendLayers = Some [''a'', ''b''],
       adjustBounds = (\<lambda>b. b), getImageSize = (\<lambda>b. \<lparr> size_w = 256, size_h = 256 \<rparr>),
       reverseAxisOrder = False,
       getFullRequestString = (\<lambda>p. ''http://wms?REQUEST=GetLegendGraphic'') \<rparr>
     = None
   \<and> update
     \<lparr> isXType = (\<lambda>x t. x = t), hasSetUrl = (\<lambda>x. x = ''gx_legendimage''),
       toBBOX = (\<lambda>b r. ''0,0,10,10''),
       toArray = (\<lambda>b r. [0, 0, 10, 10]) \<rparr>
     (\<lambda>w. w\<lparr>layouts := 7\<rparr>)
     \<lparr> layerRecord = Some
      \<lparr> layer_map = None, encodeBBOX = True, legendLayers = Some [''a'', ''b''],
       adjustBounds = (\<lambda>b. b), getImageSize = (\<lambda>b. \<lparr> size_w = 256, size_h = 256 \<rparr>),
       reverseAxisOrder = False,
       getFullRequestString = (\<lambda>p. ''http://wms?REQUEST=GetLegendGraphic'') \<rparr>,
     itemXType = ''gx_legendimage'', items = [\<lparr> xtype = ''label'', url = None \<rparr>, \<lparr> xtype = ''gx_legendimage'', url = Some ''old'' \<rparr>], layouts = 0 \<rparr>
   = Inr
     \<lparr> layerRecord = Some
      \<lparr> layer_map = None, encodeBBOX = True, legendLayers = Some [''a'', ''b''],
       adjustBounds = (\<lambda>b. b), getImageSize = (\<lambda>b. \<lparr> size_w = 256, size_h = 256 \<rparr>),
       reverseAxisOrder = False,
       getFullRequestString = (\<lambda>p. ''http://wms?REQUEST=GetLegendGraphic'') \<rparr>,
     itemXType = ''gx_legendimage'', items = [\<lparr> xtype = ''label'', url = None \<rparr>, \<lparr> xtype = ''gx_legendimage'', url = Some ''old'' \<rparr>], layouts = 0 \<rparr>
   \<and> getLegendUrl
     \<lparr> isXType = (\<lambda>x t. x = t), hasSetUrl = (\<lambda>x. x = ''gx_legendimage''),
       toBBOX = (\<lambda>b r. ''0,0,10,10''),
       toArray = (\<lambda>b r. [0, 0, 10, 10]) \<rparr>
     \<lparr> layerRecord = Some
      \<lparr> layer_map = None, encodeBBOX = True, legendLayers = Some [''a'', ''b''],
       adjustBounds = (\<lambda>b. b), getImageSize = (\<lambda>b. \<lparr> size_w = 256, size_h = 256 \<rparr>),
       reverseAxisOrder = False,
       getFullRequestString = (\<lambda>p. ''http://wms?REQUEST=GetLegendGraphic'') \<rparr>,
     itemXType = ''gx_legendimage'', items = [\<lparr> xtype = ''label'', url = None \<rparr>, \<lparr> xtype = ''gx_legendimage'', url = Some ''old'' \<rparr>], layouts = 0 \<rparr>
   = Inr None"
  using C3_detached_layer_no_effect
    [of "\<lparr> layerRecord = Some
      \<lparr> layer_map = None, encodeBBOX = True, legendLayers = Some [''a'', ''b''],
       adjustBounds = (\<lambda>b. b), getImageSize = (\<lambda>b. \<lparr> size_w = 256, size_h = 256 \<rparr>),
       reverseAxisOrder = False,
       getFullRequestString = (\<lambda>p. ''http://wms?REQUEST=GetLegendGraphic'') \<rparr>,
     itemXType = ''gx_legendimage'', items = [\<lparr> xtype = ''label'', url = None \<rparr>, \<lparr> xtype = ''gx_legendimage'', url = Some ''old'' \<rparr>], layouts = 0 \<rparr>"
        "\<lparr> layer_map = None, encodeBBOX = True, legendLayers = Some [''a'', ''b''],
       adjustBounds = (\<lambda>b. b), getImageSize = (\<lambda>b. \<lparr> size_w = 256, size_h = 256 \<rparr>),
       reverseAxisOrder = False,
       getFullRequestString = (\<lambda>p. ''http://wms?REQUEST=GetLegendGraphic'') \<rparr>"
        "\<lparr> isXType = (\<lambda>x t. x = t), hasSetUrl = (\<lambda>x. x = ''gx_legendimage''),
       toBBOX = (\<lambda>b r. ''0,0,10,10''),
       toArray = (\<lambda>b r. [0, 0, 10, 10]) \<rparr>"
        "(\<lambda>w. w\<lparr>layouts := 7\<rparr>)"]
  by simp

text \<open>
  C8: when the layer is on a map whose extent is null, \<^verbatim>\<open>getLegendUrl\<close> returns no URL
  either; \<^verbatim>\<open>update\<close> does not stop at its guard in that state.
\<close>

theorem C8_no_url_without_extent:
  assumes "layerRecord w = Some layer" and "layer_map layer = Some m" and "extent m = None"
  shows "getLegendUrl lib w = Inr None
    \<and> update lib super_update w = reconcileLegendItems lib (super_update w)"
  using assms by (simp add: update_def getLegendUrl_def)

theorem C8_no_url_without_extent_witness:
  "layerRecord
     \<lparr> layerRecord = Some
      \<lparr> layer_map = Some \<lparr> extent = None \<rparr>, encodeBBOX = True, legendLayers = Some [''a'', ''b''],
       adjustBounds = (\<lambda>b. b), getImageSize = (\<lambda>b. \<lparr> size_w = 256, size_h = 256 \<rparr>),
       reverseAxisOrder = False,
       getFullRequestString = (\<lambda>p. ''http://wms?REQUEST=GetLegendGraphic'') \<rparr>,
     itemXType = ''gx_legendimage'', items = [\<lparr> xtype = ''label'', url = None \<rparr>, \<lparr> xtype = ''gx_legendimage'', url = Some ''old'' \<rparr>], layouts = 0 \<rparr>
   = Some
     \<lparr> layer_map = Some \<lparr> extent = None \<rparr>, encodeBBOX = True, legendLayers = Some [''a'', ''b''],
       adjustBounds = (\<lambda>b. b), getImageSize = (\<lambda>b. \<lparr> size_w = 256, size_h = 256 \<rparr>),
       reverseAxisOrder = False,
       getFullRequestString = (\<lambda>p. ''http://wms?REQUEST=GetLegendGraphic'') \<rparr>
   \<and> layer_map
     \<lparr> layer_map = Some \<lparr> extent = None \<rparr>, encodeBBOX = True, legendLayers = Some [''a'', ''b''],
       adjustBounds = (\<lambda>b. b), getImageSize = (\<lambda>b. \<lparr> size_w = 256, size_h = 256 \<rparr>),
       reverseAxisOrder = False,
       getFullRequestString = (\<lambda>p. ''http://wms?REQUEST=GetLegendGraphic'') \<rparr>
     = Some \<lparr> extent = None \<rparr>
   \<and> extent \<lparr> extent = None \<rparr> = None
   \<and> getLegendUrl
     \<lparr> isXType = (\<lambda>x t. x = t), hasSetUrl = (\<lambda>x. x = ''gx_legendimage''),
       toBBOX = (\<lambda>b r. ''0,0,10,10''),
       toArray = (\<lambda>b r. [0, 0, 10, 10]) \<rparr>
     \<lparr> layerRecord = Some
      \<lparr> layer_map = Some \<lparr> extent = None \<rparr>, encodeBBOX = True, legendLayers = Some [''a'', ''b''],
       adjustBounds = (\<lambda>b. b), getImageSize = (\<lambda>b. \<lparr> size_w = 256, size_h = 256 \<rparr>),
       reverseAxisOrder = False,
       getFullRequestString = (\<lambda>p. ''http://wms?REQUEST=GetLegendGraphic'') \<rparr>,
     itemXType = ''gx_legendimage'', items = [\<lparr> xtype = ''label'', url = None \<rparr>, \<lparr> xtype = ''gx_legendimage'', url = Some ''old'' \<rparr>], layouts = 0 \<rparr>
   = Inr None"
  using C8_no_url_without_extent
    [of "\<lparr> layerRecord = Some
      \<lparr> layer_map = Some \<lparr> extent = None \<rparr>, encodeBBOX = True, legendLayers = Some [''a'', ''b''],
       adjustBounds = (\<lambda>b. b), getImageSize = (\<lambda>b. \<lparr> size_w = 256, size_h = 256 \<rparr>),
       reverseAxisOrder = False,
       getFullRequestString = (\<lambda>p. ''http://wms?REQUEST=GetLegendGraphic'') \<rparr>,
     itemXType = ''gx_legendimage'', items = [\<lparr> xtype = ''label'', url = None \<rparr>, \<lparr> xtype = ''gx_legendimage'', url = Some ''old'' \<rparr>], layouts = 0 \<rparr>"
        "\<lparr> layer_map = Some \<lparr> extent = None \<rparr>, encodeBBOX = True, legendLayers = Some [''a'', ''b''],
       adjustBounds = (\<lambda>b. b), getImageSize = (\<lambda>b. \<lparr> size_w = 256, size_h = 256 \<rparr>),
       reverseAxisOrder = False,
       getFullRequestString = (\<lambda>p. ''http://wms?REQUEST=GetLegendGraphic'') \<rparr>"
        "\<lparr> extent = None \<rparr>"
        "\<lparr> isXType = (\<lambda>x t. x = t), hasSetUrl = (\<lambda>x. x = ''gx_legendimage''),
       toBBOX = (\<lambda>b r. ''0,0,10,10''),
       toArray = (\<lambda>b r. [0, 0, 10, 10]) \<rparr>"
        "(\<lambda>w. w\<lparr>layouts := 7\<rparr>)"]
  by simp

text \<open>
  C7: when the legend URL is computed, the request parameters given to
  \<^verbatim>\<open>getFullRequestString\<close> carry the layer's \<^verbatim>\<open>legendLayers\<close> as \<^verbatim>\<open>LAYERS\<close> if the
  layer declares them, and no \<^verbatim>\<open>LAYERS\<close> key otherwise, so that the layer's own parameters
  decide. The instances below take a request-string function that prints \<^verbatim>\<open>LAYERS\<close>, the
  layer's own list being \<open>a,b,c\<close>.
\<close>

theorem C7_legend_layers_in_params:
  assumes "layerRecord w = Some layer" and "layer_map layer = Some m" and "extent m = Some ext"
  shows "getLegendUrl lib w = Inr (Some (getFullRequestString layer (newParams lib layer ext)))
    \<and> (\<forall>names. legendLayers layer = Some names \<longrightarrow>
          LAYERS (newParams lib layer ext) = Some names)
    \<and> (legendLayers layer = None \<longrightarrow> LAYERS (newParams lib layer ext) = None)
    \<and> REQUEST (newParams lib layer ext) = ''GetLegendGraphic''"
  using assms by (simp add: getLegendUrl_def newParams_def Let_def)

theorem C7_legend_layers_witness:
  "layerRecord
     \<lparr> layerRecord = Some
      \<lparr> layer_map = Some \<lparr> extent = Some \<lparr> b_left = 0, b_bottom = 0, b_right = 10, b_top = 10 \<rparr> \<rparr>, encodeBBOX = True, legendLayers = Some [''a'', ''b''],
       adjustBounds = (\<lambda>b. b), getImageSize = (\<lambda>b. \<lparr> size_w = 256, size_h = 256 \<rparr>),
       reverseAxisOrder = False,
       getFullRequestString = (\<lambda>p. ''LAYERS='' @ (case LAYERS p of None \<Rightarrow> ''a,b,c''
            | Some ns \<Rightarrow> foldr (\<lambda>n acc. if acc = [] then n else n @ '','' @ acc) ns [])) \<rparr>,
     itemXType = ''gx_legendimage'', items = [], layouts = 0 \<rparr>
   = Some
     \<lparr> layer_map = Some \<lparr> extent = Some \<lparr> b_left = 0, b_bottom = 0, b_right = 10, b_top = 10 \<rparr> \<rparr>, encodeBBOX = True, legendLayers = Some [''a'', ''b''],
       adjustBounds = (\<lambda>b. b), getImageSize = (\<lambda>b. \<lparr> size_w = 256, size_h = 256 \<rparr>),
       reverseAxisOrder = False,
       getFullRequestString = (\<lambda>p. ''LAYERS='' @ (case LAYERS p of None \<Rightarrow> ''a,b,c''
            | Some ns \<Rightarrow> foldr (\<lambda>n acc. if acc = [] then n else n @ '','' @ acc) ns [])) \<rparr>
   \<and> layer_map
     \<lparr> layer_map = Some \<lparr> extent = Some \<lparr> b_left = 0, b_bottom = 0, b_right = 10, b_top = 10 \<rparr> \<rparr>, encodeBBOX = True, legendLayers = Some [''a'', ''b''],
       adjustBounds = (\<lambda>b. b), getImageSize = (\<lambda>b. \<lparr> size_w = 256, size_h = 256 \<rparr>),
       reverseAxisOrder = False,
       getFullRequestString = (\<lambda>p. ''LAYERS='' @ (case LAYERS p of None \<Rightarrow> ''a,b,c''
            | Some ns \<Rightarrow> foldr (\<lambda>n acc. if acc = [] then n else n @ '','' @ acc) ns [])) \<rparr>
     = Some \<lparr> extent = Some \<lparr> b_left = 0, b_bottom = 0, b_right = 10, b_top = 10 \<rparr> \<rparr>
   \<and> extent \<lparr> extent = Some \<lparr> b_left = 0, b_bottom = 0, b_right = 10, b_top = 10 \<rparr> \<rparr> = Some \<lparr> b_left = 0, b_bottom = 0, b_right = 10, b_top = 10 \<rparr>
   \<and> getLegendUrl
     \<lparr> isXType = (\<lambda>x t. x = t), hasSetUrl = (\<lambda>x. x = ''gx_legendimage''),
       toBBOX = (\<lambda>b r. ''0,0,10,10''),
       toArray = (\<lambda>b r. [0, 0, 10, 10]) \<rparr>
     \<lparr> layerRecord = Some
      \<lparr> layer_map = Some \<lparr> extent = Some \<lparr> b_left = 0, b_bottom = 0, b_right = 10, b_top = 10 \<rparr> \<rparr>, encodeBBOX = True, legendLayers = Some [''a'', ''b''],
       adjustBounds = (\<lambda>b. b), getImageSize = (\<lambda>b. \<lparr> size_w = 256, size_h = 256 \<rparr>),
       reverseAxisOrder = False,
       getFullRequestString = (\<lambda>p. ''LAYERS='' @ (case LAYERS p of None \<Rightarrow> ''a,b,c''
            | Some ns \<Rightarrow> foldr (\<lambda>n acc. if acc = [] then n else n @ '','' @ acc) ns [])) \<rparr>,
     itemXType = ''gx_legendimage'', items = [], layouts = 0 \<rparr>
   = Inr (Some ''LAYERS=a,b'')
   \<and> LAYERS (newParams
     \<lparr> isXType = (\<lambda>x t. x = t), hasSetUrl = (\<lambda>x. x = ''gx_legendimage''),
       toBBOX = (\<lambda>b r. ''0,0,10,10''),
       toArray = (\<lambda>b r. [0, 0, 10, 10]) \<rparr>
     \<lparr> layer_map = Some \<lparr> extent = Some \<lparr> b_left = 0, b_bottom = 0, b_right = 10, b_top = 10 \<rparr> \<rparr>, encodeBBOX = True, legendLayers = Some [''a'', ''b''],
       adjustBounds = (\<lambda>b. b), getImageSize = (\<lambda>b. \<lparr> size_w = 256, size_h = 256 \<rparr>),
       reverseAxisOrder = False,
       getFullRequestString = (\<lambda>p. ''LAYERS='' @ (case LAYERS p of None \<Rightarrow> ''a,b,c''
            | Some ns \<Rightarrow> foldr (\<lambda>n acc. if acc = [] then n else n @ '','' @ acc) ns [])) \<rparr>
     \<lparr> b_left = 0, b_bottom = 0, b_right = 10, b_top = 10 \<rparr>) = Some [''a'', ''b'']
   \<and> getLegendUrl
     \<lparr> isXType = (\<lambda>x t. x = t), hasSetUrl = (\<lambda>x. x = ''gx_legendimage''),
       toBBOX = (\<lambda>b r. ''0,0,10,10''),
       toArray = (\<lambda>b r. [0, 0, 10, 10]) \<rparr>
     \<lparr> layerRecord = Some
      \<lparr> layer_map = Some \<lparr> extent = Some \<lparr> b_left = 0, b_bottom = 0, b_right = 10, b_top = 10 \<rparr> \<rparr>, encodeBBOX = True, legendLayers = None,
       adjustBounds = (\<lambda>b. b), getImageSize = (\<lambda>b. \<lparr> size_w = 256, size_h = 256 \<rparr>),
       reverseAxisOrder = False,
       getFullRequestString = (\<lambda>p. ''LAYERS='' @ (case LAYERS p of None \<Rightarrow> ''a,b,c''
            | Some ns \<Rightarrow> foldr (\<lambda>n acc. if acc = [] then n else n @ '','' @ acc) ns [])) \<rparr>,
     itemXType = ''gx_legendimage'', items = [], layouts = 0 \<rparr>
   = Inr (Some ''LAYERS=a,b,c'')
   \<and> LAYERS (newParams
     \<lparr> isXType = (\<lambda>x t. x = t), hasSetUrl = (\<lambda>x. x = ''gx_legendimage''),
       toBBOX = (\<lambda>b r. ''0,0,10,10''),
       toArray = (\<lambda>b r. [0, 0, 10, 10]) \<rparr>
     \<lparr> layer_map = Some \<lparr> extent = Some \<lparr> b_left = 0, b_bottom = 0, b_right = 10, b_top = 10 \<rparr> \<rparr>, encodeBBOX = True, legendLayers = None,
       adjustBounds = (\<lambda>b. b), getImageSize = (\<lambda>b. \<lparr> size_w = 256, size_h = 256 \<rparr>),
       reverseAxisOrder = False,
       getFullRequestString = (\<lambda>p. ''LAYERS='' @ (case LAYERS p of None \<Rightarrow> ''a,b,c''
            | Some ns \<Rightarrow> foldr (\<lambda>n acc. if acc = [] then n else n @ '','' @ acc) ns [])) \<rparr>
     \<lparr> b_left = 0, b_bottom = 0, b_right = 10, b_top = 10 \<rparr>) = None"
  using C7_legend_layers_in_params
    [of "\<lparr> layerRecord = Some
      \<lparr> layer_map = Some \<lparr> extent = Some \<lparr> b_left = 0, b_bottom = 0, b_right = 10, b_top = 10 \<rparr> \<rparr>, encodeBBOX = True, legendLayers = Some [''a'', ''b''],
       adjustBounds = (\<lambda>b. b), getImageSize = (\<lambda>b. \<lparr> size_w = 256, size_h = 256 \<rparr>),
       reverseAxisOrder = False,
       getFullRequestString = (\<lambda>p. ''LAYERS='' @ (case LAYERS p of None \<Rightarrow> ''a,b,c''
            | Some ns \<Rightarrow> foldr (\<lambda>n acc. if acc = [] then n else n @ '','' @ acc) ns [])) \<rparr>,
     itemXType = ''gx_legendimage'', items = [], layouts = 0 \<rparr>"
        "\<lparr> layer_map = Some \<lparr> extent = Some \<lparr> b_left = 0, b_bottom = 0, b_right = 10, b_top = 10 \<rparr> \<rparr>, encodeBBOX = True, legendLayers = Some [''a'', ''b''],
       adjustBounds = (\<lambda>b. b), getImageSize = (\<lambda>b. \<lparr> size_w = 256, size_h = 256 \<rparr>),
       reverseAxisOrder = False,
       getFullRequestString = (\<lambda>p. ''LAYERS='' @ (case LAYERS p of None \<Rightarrow> ''a,b,c''
            | Some ns \<Rightarrow> foldr (\<lambda>n acc. if acc = [] then n else n @ '','' @ acc) ns [])) \<rparr>"
        "\<lparr> extent = Some \<lparr> b_left = 0, b_bottom = 0, b_right = 10, b_top = 10 \<rparr> \<rparr>"
        "\<lparr> b_left = 0, b_bottom = 0, b_right = 10, b_top = 10 \<rparr>"
        "\<lparr> isXType = (\<lambda>x t. x = t), hasSetUrl = (\<lambda>x. x = ''gx_legendimage''),
       toBBOX = (\<lambda>b r. ''0,0,10,10''),
       toArray = (\<lambda>b r. [0, 0, 10, 10]) \<rparr>"]
    C7_legend_layers_in_params
    [of "\<lparr> layerRecord = Some
      \<lparr> layer_map = Some \<lparr> extent = Some \<lparr> b_left = 0, b_bottom = 0, b_right = 10, b_top = 10 \<rparr> \<rparr>, encodeBBOX = True, legendLayers = None,
       adjustBounds = (\<lambda>b. b), getImageSize = (\<lambda>b. \<lparr> size_w = 256, size_h = 256 \<rparr>),
       reverseAxisOrder = False,
       getFullRequestString = (\<lambda>p. ''LAYERS='' @ (case LAYERS p of None \<Rightarrow> ''a,b,c''
            | Some ns \<Rightarrow> foldr (\<lambda>n acc. if acc = [] then n else n @ '','' @ acc) ns [])) \<rparr>,
     itemXType = ''gx_legendimage'', items = [], layouts = 0 \<rparr>"
        "\<lparr> layer_map = Some \<lparr> extent = Some \<lparr> b_left = 0, b_bottom = 0, b_right = 10, b_top = 10 \<rparr> \<rparr>, encodeBBOX = True, legendLayers = None,
       adjustBounds = (\<lambda>b. b), getImageSize = (\<lambda>b. \<lparr> size_w = 256, size_h = 256 \<rparr>),
       reverseAxisOrder = False,
       getFullRequestString = (\<lambda>p. ''LAYERS='' @ (case LAYERS p of None \<Rightarrow> ''a,b,c''
            | Some ns \<Rightarrow> foldr (\<lambda>n acc. if acc = [] then n else n @ '','' @ acc) ns [])) \<rparr>"
        "\<lparr> extent = Some \<lparr> b_left = 0, b_bottom = 0, b_right = 10, b_top = 10 \<rparr> \<rparr>"
        "\<lparr> b_left = 0, b_bottom = 0, b_right = 10, b_top = 10 \<rparr>"
        "\<lparr> isXType = (\<lambda>x t. x = t), hasSetUrl = (\<lambda>x. x = ''gx_legendimage''),
       toBBOX = (\<lambda>b r. ''0,0,10,10''),
       toArray = (\<lambda>b r. [0, 0, 10, 10]) \<rparr>"]
  by (simp add: newParams_def)

subsection \<open>Lines 31 to 47 of \<^verbatim>\<open>update\<close>\<close>

lemma getLegendUrl_after:
  "getLegendUrl lib (doLayout (w\<lparr>items := xs\<rparr>)) = getLegendUrl lib w"
  by (simp add: getLegendUrl_def doLayout_def)

lemma getLegendUrl_total: "layerRecord w = Some layer \<Longrightarrow> \<exists>u. getLegendUrl lib w = Inr u"
  by (simp add: getLegendUrl_def split: option.splits)

lemma items_each_Inr:
  assumes U: "getLegendUrl lib w = Inr u"
    and S: "\<forall>k<length cs. Some (i + k) \<noteq> t \<longrightarrow> hasSetUrl lib (xtype (cs ! k))"
  shows "items_each lib w t i cs =
           Inr ((\<exists>k<length cs. Some (i + k) \<noteq> t),
                map (\<lambda>(k, c). if Some k \<noteq> t then c\<lparr>url := u\<rparr> else c) (enumerate i cs))"
  using S
proof (induction cs arbitrary: i)
  case Nil
  show ?case by simp
next
  case (Cons c cs)
  from Cons.prems have hd: "Some i \<noteq> t \<longrightarrow> hasSetUrl lib (xtype c)" by force
  from Cons.prems have "\<forall>k<length cs. Some (Suc i + k) \<noteq> t \<longrightarrow> hasSetUrl lib (xtype (cs ! k))"
    by force
  then have ih: "items_each lib w t (Suc i) cs =
           Inr ((\<exists>k<length cs. Some (Suc i + k) \<noteq> t),
                map (\<lambda>(k, c). if Some k \<noteq> t then c\<lparr>url := u\<rparr> else c) (enumerate (Suc i) cs))"
    by (rule Cons.IH)
  show ?case using U hd by (simp add: ih Ex_less_Suc2)
qed

lemma items_each_no_setUrl:
  assumes U: "getLegendUrl lib w = Inr u"
  shows "k < length cs \<Longrightarrow> Some (i + k) \<noteq> t \<Longrightarrow> \<not> hasSetUrl lib (xtype (cs ! k))
           \<Longrightarrow> items_each lib w t i cs = Inl TypeError"
proof (induction cs arbitrary: i k)
  case Nil
  then show ?case by simp
next
  case (Cons c cs)
  show ?case
  proof (cases k)
    case 0
    with Cons.prems U show ?thesis by simp
  next
    case (Suc k')
    with Cons.prems have "items_each lib w t (Suc i) cs = Inl TypeError"
      using Cons.IH [of k' "Suc i"] by simp
    with U show ?thesis by simp
  qed
qed

lemma setUrl_untouched:
  assumes "\<forall>k<length cs. Some (i + k) = t"
  shows "map (\<lambda>(k, c). if Some k \<noteq> t then c\<lparr>url := u\<rparr> else c) (enumerate i cs) = cs"
  using assms
proof (induction cs arbitrary: i)
  case Nil
  show ?case by simp
next
  case (Cons c cs)
  from Cons.prems have "Some i = t" by force
  moreover from Cons.prems have "\<forall>k<length cs. Some (Suc i + k) = t" by force
  then have "map (\<lambda>(k, c). if Some k \<noteq> t then c\<lparr>url := u\<rparr> else c) (enumerate (Suc i) cs) = cs"
    by (rule Cons.IH)
  ultimately show ?case by simp
qed

lemma setUrl_twice:
  "map (\<lambda>(k, c). if Some k \<noteq> t then c\<lparr>url := u\<rparr> else c)
     (enumerate i (map (\<lambda>(k, c). if Some k \<noteq> t then c\<lparr>url := u\<rparr> else c) (enumerate i cs))) =
   map (\<lambda>(k, c). if Some k \<noteq> t then c\<lparr>url := u\<rparr> else c) (enumerate i cs)"
  by (induction cs arbitrary: i) simp_all

lemma setUrl_xtype:
  "map xtype (map (\<lambda>(k, c). if Some k \<noteq> t then c\<lparr>url := u\<rparr> else c) (enumerate i cs)) =
   map xtype cs"
  by (induction cs arbitrary: i) simp_all

lemma items_find_xtype:
  "map xtype cs' = map xtype cs \<Longrightarrow> items_find lib cs' i = items_find lib cs i"
proof (induction cs arbitrary: cs' i)
  case Nil
  then show ?case by simp
next
  case (Cons c cs)
  from Cons.prems obtain c' cs'' where eq: "cs' = c' # cs''" by (cases cs') auto
  with Cons.prems have x: "xtype c' = xtype c" and m: "map xtype cs'' = map xtype cs" by simp_all
  from m have "items_find lib cs'' (Suc i) = items_find lib cs (Suc i)" by (rule Cons.IH)
  with x eq show ?case by simp
qed

lemma setUrl_nth_xtype:
  assumes "k < length cs"
  shows "xtype (map (\<lambda>(k, c). if Some k \<noteq> t then c\<lparr>url := u\<rparr> else c) (enumerate i cs) ! k) =
         xtype (cs ! k)"
  using assms by (simp add: nth_enumerate_eq)

lemma reconcile_found:
  assumes U: "getLegendUrl lib w = Inr u"
    and S: "\<forall>k<length (items w). Some k \<noteq> items_find lib (items w) 0 \<longrightarrow>
              hasSetUrl lib (xtype (items w ! k))"
    and found: "\<exists>k<length (items w). Some k \<noteq> items_find lib (items w) 0"
  shows "reconcileLegendItems lib w =
     Inr (doLayout (w\<lparr>items :=
        map (\<lambda>(k, c). if Some k \<noteq> items_find lib (items w) 0 then c\<lparr>url := u\<rparr> else c)
          (enumerate 0 (items w))\<rparr>))"
proof -
  from S have "\<forall>k<length (items w). Some (0 + k) \<noteq> items_find lib (items w) 0 \<longrightarrow>
              hasSetUrl lib (xtype (items w ! k))" by simp
  from items_each_Inr [OF U this] found
  have "items_each lib w (items_find lib (items w) 0) 0 (items w) =
      Inr (True, map (\<lambda>(k, c). if Some k \<noteq> items_find lib (items w) 0 then c\<lparr>url := u\<rparr> else c)
                (enumerate 0 (items w)))"
    by simp
  then show ?thesis by (simp add: reconcileLegendItems_def Let_def)
qed

lemma reconcile_none:
  assumes U: "getLegendUrl lib w = Inr u"
    and none: "\<not> (\<exists>k<length (items w). Some k \<noteq> items_find lib (items w) 0)"
  shows "reconcileLegendItems lib w =
     Inr (doLayout (w\<lparr>items := items w @ [\<lparr>xtype = itemXType w, url = u\<rparr>]\<rparr>))"
proof -
  from none have all: "\<forall>k<length (items w). Some (0 + k) = items_find lib (items w) 0" by simp
  then have same: "map (\<lambda>(k, c). if Some k \<noteq> items_find lib (items w) 0 then c\<lparr>url := u\<rparr> else c)
                (enumerate 0 (items w)) = items w"
    by (rule setUrl_untouched)
  from all have "\<forall>k<length (items w). Some (0 + k) \<noteq> items_find lib (items w) 0 \<longrightarrow>
              hasSetUrl lib (xtype (items w ! k))" by simp
  from items_each_Inr [OF U this] none
  have "items_each lib w (items_find lib (items w) 0) 0 (items w) =
      Inr (False, map (\<lambda>(k, c). if Some k \<noteq> items_find lib (items w) 0 then c\<lparr>url := u\<rparr> else c)
                (enumerate 0 (items w)))"
    by simp
  with same show ?thesis using U
    by (simp add: reconcileLegendItems_def Let_def)
qed

lemma not_found_short:
  assumes "\<not> (\<exists>k<length cs. Some k \<noteq> (t::nat option))"
  shows "cs = [] \<or> (\<exists>c. cs = [c] \<and> t = Some 0)"
proof (cases cs)
  case Nil
  then show ?thesis by simp
next
  case (Cons c cs')
  with assms have t0: "t = Some 0" by auto
  have "cs' = []"
  proof (rule ccontr)
    assume "cs' \<noteq> []"
    with Cons have "1 < length cs" by (cases cs') auto
    with assms have "Some 1 = t" by blast
    with t0 show False by simp
  qed
  with Cons t0 show ?thesis by simp
qed

lemma items_find_Some0: "items_find lib (c # cs) 0 = Some 0 \<Longrightarrow> isXType lib (xtype c) ''label''"
proof (rule ccontr)
  assume a: "items_find lib (c # cs) 0 = Some 0" and b: "\<not> isXType lib (xtype c) ''label''"
  have "\<And>i k. items_find lib cs i = Some k \<Longrightarrow> i \<le> k"
  proof (induction cs)
    case Nil then show ?case by simp
  next
    case (Cons d ds)
    then show ?case by (fastforce split: if_splits)
  qed
  with a b show False by fastforce
qed

lemma reconcile_found_again:
  assumes U: "getLegendUrl lib w = Inr u"
    and S: "\<forall>k<length (items w). Some k \<noteq> items_find lib (items w) 0 \<longrightarrow>
              hasSetUrl lib (xtype (items w ! k))"
    and found: "\<exists>k<length (items w). Some k \<noteq> items_find lib (items w) 0"
  shows "reconcileLegendItems lib
           (doLayout (w\<lparr>items :=
              map (\<lambda>(k, c). if Some k \<noteq> items_find lib (items w) 0 then c\<lparr>url := u\<rparr> else c)
                (enumerate 0 (items w))\<rparr>)) =
         Inr (doLayout (doLayout (w\<lparr>items :=
              map (\<lambda>(k, c). if Some k \<noteq> items_find lib (items w) 0 then c\<lparr>url := u\<rparr> else c)
                (enumerate 0 (items w))\<rparr>)))"
proof -
  let ?t = "items_find lib (items w) 0"
  let ?M = "map (\<lambda>(k, c). if Some k \<noteq> ?t then c\<lparr>url := u\<rparr> else c) (enumerate 0 (items w))"
  let ?w1 = "doLayout (w\<lparr>items := ?M\<rparr>)"
  have i1: "items ?w1 = ?M" by (simp add: doLayout_def)
  have U1: "getLegendUrl lib ?w1 = Inr u" using U by (simp only: getLegendUrl_after)
  have t1: "items_find lib ?M 0 = ?t" by (rule items_find_xtype) (rule setUrl_xtype)
  have len: "length ?M = length (items w)" by simp
  from found have f1: "\<exists>k<length (items ?w1). Some k \<noteq> items_find lib (items ?w1) 0"
    by (simp only: i1 t1 len)
  have S1: "\<forall>k<length (items ?w1). Some k \<noteq> items_find lib (items ?w1) 0 \<longrightarrow>
              hasSetUrl lib (xtype (items ?w1 ! k))"
    unfolding i1 t1 len
  proof (intro allI impI)
    fix k assume k: "k < length (items w)" and nt: "Some k \<noteq> ?t"
    with S have "hasSetUrl lib (xtype (items w ! k))" by blast
    then show "hasSetUrl lib (xtype (?M ! k))" by (simp only: setUrl_nth_xtype [OF k])
  qed
  have "reconcileLegendItems lib ?w1 =
     Inr (doLayout (?w1\<lparr>items :=
        map (\<lambda>(k, c). if Some k \<noteq> items_find lib (items ?w1) 0 then c\<lparr>url := u\<rparr> else c)
          (enumerate 0 (items ?w1))\<rparr>))"
    by (rule reconcile_found [OF U1 S1 f1])
  also have "map (\<lambda>(k, c). if Some k \<noteq> items_find lib (items ?w1) 0 then c\<lparr>url := u\<rparr> else c)
          (enumerate 0 (items ?w1)) = ?M"
    by (simp only: i1 t1 setUrl_twice)
  also have "?w1\<lparr>items := ?M\<rparr> = ?w1" by (simp add: doLayout_def)
  finally show ?thesis .
qed

lemma reconcile_none_again:
  assumes U: "getLegendUrl lib w = Inr u"
    and none: "\<not> (\<exists>k<length (items w). Some k \<noteq> items_find lib (items w) 0)"
    and cfg: "hasSetUrl lib (itemXType w) \<and> \<not> isXType lib (itemXType w) ''label''"
  shows "reconcileLegendItems lib
           (doLayout (w\<lparr>items := items w @ [\<lparr>xtype = itemXType w, url = u\<rparr>]\<rparr>)) =
         Inr (doLayout (doLayout
           (w\<lparr>items := items w @ [\<lparr>xtype = itemXType w, url = u\<rparr>]\<rparr>)))"
proof -
  let ?new = "\<lparr>xtype = itemXType w, url = u\<rparr>"
  let ?w1 = "doLayout (w\<lparr>items := items w @ [?new]\<rparr>)"
  from cfg have su: "hasSetUrl lib (itemXType w)" and nl: "\<not> isXType lib (itemXType w) ''label''"
    by simp_all
  have i1: "items ?w1 = items w @ [?new]" by (simp add: doLayout_def)
  have U1: "getLegendUrl lib ?w1 = Inr u" using U by (simp only: getLegendUrl_after)
  have same: "?w1\<lparr>items := items w @ [?new]\<rparr> = ?w1" by (simp add: doLayout_def)
  have "(\<exists>k<length (items ?w1). Some k \<noteq> items_find lib (items ?w1) 0)
      \<and> (\<forall>k<length (items ?w1). Some k \<noteq> items_find lib (items ?w1) 0 \<longrightarrow>
              hasSetUrl lib (xtype (items ?w1 ! k)))
      \<and> map (\<lambda>(k, c). if Some k \<noteq> items_find lib (items ?w1) 0 then c\<lparr>url := u\<rparr> else c)
            (enumerate 0 (items ?w1)) = items w @ [?new]"
    using not_found_short [OF none]
  proof
    assume e: "items w = []"
    show ?thesis unfolding i1 unfolding e by (simp add: nl su)
  next
    assume "\<exists>c. items w = [c] \<and> items_find lib (items w) 0 = Some 0"
    then obtain c where e: "items w = [c]" and t: "items_find lib (items w) 0 = Some 0" by blast
    from t have lb: "isXType lib (xtype c) ''label''"
      unfolding e by (rule items_find_Some0)
    have a: "\<exists>k<length [c, ?new]. Some k \<noteq> items_find lib [c, ?new] 0"
      by (rule exI [of _ 1]) (simp add: lb)
    have b: "\<forall>k<length [c, ?new]. Some k \<noteq> items_find lib [c, ?new] 0 \<longrightarrow>
              hasSetUrl lib (xtype ([c, ?new] ! k))"
      by (simp add: lb su All_less_Suc2)
    have m: "map (\<lambda>(k, c). if Some k \<noteq> items_find lib [c, ?new] 0 then c\<lparr>url := u\<rparr> else c)
            (enumerate 0 [c, ?new]) = [c] @ [?new]"
      by (simp add: lb)
    from a b m show ?thesis unfolding i1 unfolding e by simp
  qed
  then have f1: "\<exists>k<length (items ?w1). Some k \<noteq> items_find lib (items ?w1) 0"
    and S1: "\<forall>k<length (items ?w1). Some k \<noteq> items_find lib (items ?w1) 0 \<longrightarrow>
              hasSetUrl lib (xtype (items ?w1 ! k))"
    and m: "map (\<lambda>(k, c). if Some k \<noteq> items_find lib (items ?w1) 0 then c\<lparr>url := u\<rparr> else c)
            (enumerate 0 (items ?w1)) = items w @ [?new]"
    by blast+
  show ?thesis using reconcile_found [OF U1 S1 f1] unfolding m same .
qed

text \<open>
  An item other than the text item that has no \<^verbatim>\<open>setUrl\<close>, such as a second label, makes
  the loop throw (lemma \<open>items_each_no_setUrl\<close>); for instance:
\<close>

lemma reconcile_second_label_raises:
  "reconcileLegendItems
     \<lparr> isXType = (\<lambda>x t. x = t), hasSetUrl = (\<lambda>x. x = ''gx_legendimage''),
       toBBOX = (\<lambda>b r. ''0,0,10,10''), toArray = (\<lambda>b r. [0, 0, 10, 10]) \<rparr>
     \<lparr> layerRecord = Some
      \<lparr> layer_map = Some \<lparr> extent = Some \<lparr> b_left = 0, b_bottom = 0, b_right = 10, b_top = 10 \<rparr> \<rparr>, encodeBBOX = True, legendLayers = None,
       adjustBounds = (\<lambda>b. b), getImageSize = (\<lambda>b. \<lparr> size_w = 256, size_h = 256 \<rparr>),
       reverseAxisOrder = False,
       getFullRequestString = (\<lambda>p. ''http://wms?REQUEST=GetLegendGraphic'') \<rparr>,
     itemXType = ''gx_legendimage'', items = [\<lparr> xtype = ''label'', url = None \<rparr>, \<lparr> xtype = ''label'', url = None \<rparr>], layouts = 0 \<rparr>
   = Inl TypeError"
  by (simp add: reconcileLegendItems_def getLegendUrl_def)

text \<open>
  C4: let the legend have a layer, let every item other than the text item be an image
  component, one that has \<^verbatim>\<open>setUrl\<close>, and let the configured item xtype be that of an
  image component, which has \<^verbatim>\<open>setUrl\<close> and is not a label. Then the reconciliation
  succeeds; if an item other than the text item exists, every such item gets the legend URL
  in place and no item is added, otherwise exactly one item of the configured xtype with
  that URL is appended; and a second reconciliation leaves the items, hence their URLs, as
  the first one left them.
\<close>

theorem C4_reconcile_idempotent:
  assumes lay: "layerRecord w = Some layer"
    and imgs: "\<forall>k<length (items w). Some k \<noteq> items_find lib (items w) 0 \<longrightarrow>
                 hasSetUrl lib (xtype (items w ! k))"
    and cfg: "hasSetUrl lib (itemXType w) \<and> \<not> isXType lib (itemXType w) ''label''"
  shows "\<exists>u w1. getLegendUrl lib w = Inr u \<and> reconcileLegendItems lib w = Inr w1
     \<and> (if \<exists>k<length (items w). Some k \<noteq> items_find lib (items w) 0
         then length (items w1) = length (items w)
            \<and> (\<forall>k<length (items w). items w1 ! k =
                  (if Some k \<noteq> items_find lib (items w) 0 then (items w ! k)\<lparr>url := u\<rparr>
                   else items w ! k))
         else items w1 = items w @ [\<lparr>xtype = itemXType w, url = u\<rparr>])
     \<and> (\<exists>w2. reconcileLegendItems lib w1 = Inr w2 \<and> items w2 = items w1)"
proof -
  let ?t = "items_find lib (items w) 0"
  from getLegendUrl_total [OF lay] obtain u where U: "getLegendUrl lib w = Inr u" by blast
  let ?M = "map (\<lambda>(k, c). if Some k \<noteq> ?t then c\<lparr>url := u\<rparr> else c) (enumerate 0 (items w))"
  let ?new = "\<lparr>xtype = itemXType w, url = u\<rparr>"
  show ?thesis
  proof (cases "\<exists>k<length (items w). Some k \<noteq> ?t")
    case True
    let ?w1 = "doLayout (w\<lparr>items := ?M\<rparr>)"
    have r1: "reconcileLegendItems lib w = Inr ?w1" by (rule reconcile_found [OF U imgs True])
    have i1: "items ?w1 = ?M" by (simp add: doLayout_def)
    have r2: "reconcileLegendItems lib ?w1 = Inr (doLayout ?w1)"
      by (rule reconcile_found_again [OF U imgs True])
    have i2: "items (doLayout ?w1) = items ?w1" by (simp add: doLayout_def)
    have len: "length (items ?w1) = length (items w)" unfolding i1 by simp
    have nth: "\<forall>k<length (items w). items ?w1 ! k =
                  (if Some k \<noteq> ?t then (items w ! k)\<lparr>url := u\<rparr> else items w ! k)"
      unfolding i1 by (simp add: nth_enumerate_eq)
    have char: "(if \<exists>k<length (items w). Some k \<noteq> ?t
         then length (items ?w1) = length (items w)
            \<and> (\<forall>k<length (items w). items ?w1 ! k =
                  (if Some k \<noteq> ?t then (items w ! k)\<lparr>url := u\<rparr> else items w ! k))
         else items ?w1 = items w @ [?new])"
    proof (subst if_P [OF True])
      from len nth show "length (items ?w1) = length (items w)
            \<and> (\<forall>k<length (items w). items ?w1 ! k =
                  (if Some k \<noteq> ?t then (items w ! k)\<lparr>url := u\<rparr> else items w ! k))"
        by (rule conjI)
    qed
    show ?thesis
      by (intro exI conjI) (rule U, rule r1, rule char, rule r2, rule i2)
  next
    case False
    let ?w1 = "doLayout (w\<lparr>items := items w @ [?new]\<rparr>)"
    have r1: "reconcileLegendItems lib w = Inr ?w1" by (rule reconcile_none [OF U False])
    have i1: "items ?w1 = items w @ [?new]" by (simp add: doLayout_def)
    have r2: "reconcileLegendItems lib ?w1 = Inr (doLayout ?w1)"
      by (rule reconcile_none_again [OF U False cfg])
    have i2: "items (doLayout ?w1) = items ?w1" by (simp add: doLayout_def)
    have char: "(if \<exists>k<length (items w). Some k \<noteq> ?t
         then length (items ?w1) = length (items w)
            \<and> (\<forall>k<length (items w). items ?w1 ! k =
                  (if Some k \<noteq> ?t then (items w ! k)\<lparr>url := u\<rparr> else items w ! k))
         else items ?w1 = items w @ [?new])"
    proof (subst if_not_P [OF False])
      show "items ?w1 = items w @ [?new]" by (rule i1)
    qed
    show ?thesis
      by (intro exI conjI) (rule U, rule r1, rule char, rule r2, rule i2)
  qed
qed

theorem C4_reconcile_idempotent_witness:
  "layerRecord
     \<lparr> layerRecord = Some
      \<lparr> layer_map = Some \<lparr> extent = Some \<lparr> b_left = 0, b_bottom = 0, b_right = 10, b_top = 10 \<rparr> \<rparr>, encodeBBOX = True, legendLayers = None,
       adjustBounds = (\<lambda>b. b), getImageSize = (\<lambda>b. \<lparr> size_w = 256, size_h = 256 \<rparr>),
       reverseAxisOrder = False,
       getFullRequestString = (\<lambda>p. ''http://wms?REQUEST=GetLegendGraphic'') \<rparr>,
     itemXType = ''gx_legendimage'', items = [\<lparr> xtype = ''label'', url = None \<rparr>, \<lparr> xtype = ''gx_legendimage'', url = Some ''old'' \<rparr>], layouts = 0 \<rparr>
   = Some
     \<lparr> layer_map = Some \<lparr> extent = Some \<lparr> b_left = 0, b_bottom = 0, b_right = 10, b_top = 10 \<rparr> \<rparr>, encodeBBOX = True, legendLayers = None,
       adjustBounds = (\<lambda>b. b), getImageSize = (\<lambda>b. \<lparr> size_w = 256, size_h = 256 \<rparr>),
       reverseAxisOrder = False,
       getFullRequestString = (\<lambda>p. ''http://wms?REQUEST=GetLegendGraphic'') \<rparr>
   \<and> items_find
           \<lparr> isXType = (\<lambda>x t. x = t), hasSetUrl = (\<lambda>x. x = ''gx_legendimage''),
       toBBOX = (\<lambda>b r. ''0,0,10,10''), toArray = (\<lambda>b r. [0, 0, 10, 10]) \<rparr>
           [\<lparr> xtype = ''label'', url = None \<rparr>, \<lparr> xtype = ''gx_legendimage'', url = Some ''old'' \<rparr>] 0 = Some 0
   \<and> hasSetUrl
           \<lparr> isXType = (\<lambda>x t. x = t), hasSetUrl = (\<lambda>x. x = ''gx_legendimage''),
       toBBOX = (\<lambda>b r. ''0,0,10,10''), toArray = (\<lambda>b r. [0, 0, 10, 10]) \<rparr>
           (xtype ([\<lparr> xtype = ''label'', url = None \<rparr>, \<lparr> xtype = ''gx_legendimage'', url = Some ''old'' \<rparr>] ! 1))
   \<and> hasSetUrl
     \<lparr> isXType = (\<lambda>x t. x = t), hasSetUrl = (\<lambda>x. x = ''gx_legendimage''),
       toBBOX = (\<lambda>b r. ''0,0,10,10''), toArray = (\<lambda>b r. [0, 0, 10, 10]) \<rparr>
     ''gx_legendimage''
   \<and> \<not> isXType
     \<lparr> isXType = (\<lambda>x t. x = t), hasSetUrl = (\<lambda>x. x = ''gx_legendimage''),
       toBBOX = (\<lambda>b r. ''0,0,10,10''), toArray = (\<lambda>b r. [0, 0, 10, 10]) \<rparr>
     ''gx_legendimage'' ''label''
   \<and> reconcileLegendItems
     \<lparr> isXType = (\<lambda>x t. x = t), hasSetUrl = (\<lambda>x. x = ''gx_legendimage''),
       toBBOX = (\<lambda>b r. ''0,0,10,10''), toArray = (\<lambda>b r. [0, 0, 10, 10]) \<rparr>
     \<lparr> layerRecord = Some
      \<lparr> layer_map = Some \<lparr> extent = Some \<lparr> b_left = 0, b_bottom = 0, b_right = 10, b_top = 10 \<rparr> \<rparr>, encodeBBOX = True, legendLayers = None,
       adjustBounds = (\<lambda>b. b), getImageSize = (\<lambda>b. \<lparr> size_w = 256, size_h = 256 \<rparr>),
       reverseAxisOrder = False,
       getFullRequestString = (\<lambda>p. ''http://wms?REQUEST=GetLegendGraphic'') \<rparr>,
     itemXType = ''gx_legendimage'', items = [\<lparr> xtype = ''label'', url = None \<rparr>, \<lparr> xtype = ''gx_legendimage'', url = Some ''old'' \<rparr>], layouts = 0 \<rparr>
   = Inr
     \<lparr> layerRecord = Some
      \<lparr> layer_map = Some \<lparr> extent = Some \<lparr> b_left = 0, b_bottom = 0, b_right = 10, b_top = 10 \<rparr> \<rparr>, encodeBBOX = True, legendLayers = None,
       adjustBounds = (\<lambda>b. b), getImageSize = (\<lambda>b. \<lparr> size_w = 256, size_h = 256 \<rparr>),
       reverseAxisOrder = False,
       getFullRequestString = (\<lambda>p. ''http://wms?REQUEST=GetLegendGraphic'') \<rparr>,
     itemXType = ''gx_legendimage'', items = [\<lparr> xtype = ''label'', url = None \<rparr>, \<lparr> xtype = ''gx_legendimage'', url = Some ''http://wms?REQUEST=GetLegendGraphic'' \<rparr>], layouts = 1 \<rparr>
   \<and> reconcileLegendItems
     \<lparr> isXType = (\<lambda>x t. x = t), hasSetUrl = (\<lambda>x. x = ''gx_legendimage''),
       toBBOX = (\<lambda>b r. ''0,0,10,10''), toArray = (\<lambda>b r. [0, 0, 10, 10]) \<rparr>
     \<lparr> layerRecord = Some
      \<lparr> layer_map = Some \<lparr> extent = Some \<lparr> b_left = 0, b_bottom = 0, b_right = 10, b_top = 10 \<rparr> \<rparr>, encodeBBOX = True, legendLayers = None,
       adjustBounds = (\<lambda>b. b), getImageSize = (\<lambda>b. \<lparr> size_w = 256, size_h = 256 \<rparr>),
       reverseAxisOrder = False,
       getFullRequestString = (\<lambda>p. ''http://wms?REQUEST=GetLegendGraphic'') \<rparr>,
     itemXType = ''gx_legendimage'', items = [\<lparr> xtype = ''label'', url = None \<rparr>, \<lparr> xtype = ''gx_legendimage'', url = Some ''http://wms?REQUEST=GetLegendGraphic'' \<rparr>], layouts = 1 \<rparr>
   = Inr
     \<lparr> layerRecord = Some
      \<lparr> layer_map = Some \<lparr> extent = Some \<lparr> b_left = 0, b_bottom = 0, b_right = 10, b_top = 10 \<rparr> \<rparr>, encodeBBOX = True, legendLayers = None,
       adjustBounds = (\<lambda>b. b), getImageSize = (\<lambda>b. \<lparr> size_w = 256, size_h = 256 \<rparr>),
       reverseAxisOrder = False,
       getFullRequestString = (\<lambda>p. ''http://wms?REQUEST=GetLegendGraphic'') \<rparr>,
     itemXType = ''gx_legendimage'', items = [\<lparr> xtype = ''label'', url = None \<rparr>, \<lparr> xtype = ''gx_legendimage'', url = Some ''http://wms?REQUEST=GetLegendGraphic'' \<rparr>], layouts = 2 \<rparr>
   \<and> reconcileLegendItems
     \<lparr> isXType = (\<lambda>x t. x = t), hasSetUrl = (\<lambda>x. x = ''gx_legendimage''),
       toBBOX = (\<lambda>b r. ''0,0,10,10''), toArray = (\<lambda>b r. [0, 0, 10, 10]) \<rparr>
     \<lparr> layerRecord = Some
      \<lparr> layer_map = Some \<lparr> extent = Some \<lparr> b_left = 0, b_bottom = 0, b_right = 10, b_top = 10 \<rparr> \<rparr>, encodeBBOX = True, legendLayers = None,
       adjustBounds = (\<lambda>b. b), getImageSize = (\<lambda>b. \<lparr> size_w = 256, size_h = 256 \<rparr>),
       reverseAxisOrder = False,
       getFullRequestString = (\<lambda>p. ''http://wms?REQUEST=GetLegendGraphic'') \<rparr>,
     itemXType = ''gx_legendimage'', items = [\<lparr> xtype = ''label'', url = None \<rparr>], layouts = 0 \<rparr>
   = Inr
     \<lparr> layerRecord = Some
      \<lparr> layer_map = Some \<lparr> extent = Some \<lparr> b_left = 0, b_bottom = 0, b_right = 10, b_top = 10 \<rparr> \<rparr>, encodeBBOX = True, legendLayers = None,
       adjustBounds = (\<lambda>b. b), getImageSize = (\<lambda>b. \<lparr> size_w = 256, size_h = 256 \<rparr>),
       reverseAxisOrder = False,
       getFullRequestString = (\<lambda>p. ''http://wms?REQUEST=GetLegendGraphic'') \<rparr>,
     itemXType = ''gx_legendimage'', items = [\<lparr> xtype = ''label'', url = None \<rparr>, \<lparr> xtype = ''gx_legendimage'', url = Some ''http://wms?REQUEST=GetLegendGraphic'' \<rparr>], layouts = 1 \<rparr>"
  using C4_reconcile_idempotent
    [of "\<lparr> layerRecord = Some
      \<lparr> layer_map = Some \<lparr> extent = Some \<lparr> b_left = 0, b_bottom = 0, b_right = 10, b_top = 10 \<rparr> \<rparr>, encodeBBOX = True, legendLayers = None,
       adjustBounds = (\<lambda>b. b), getImageSize = (\<lambda>b. \<lparr> size_w = 256, size_h = 256 \<rparr>),
       reverseAxisOrder = False,
       getFullRequestString = (\<lambda>p. ''http://wms?REQUEST=GetLegendGraphic'') \<rparr>,
     itemXType = ''gx_legendimage'', items = [\<lparr> xtype = ''label'', url = None \<rparr>, \<lparr> xtype = ''gx_legendimage'', url = Some ''old'' \<rparr>], layouts = 0 \<rparr>"
        "\<lparr> layer_map = Some \<lparr> extent = Some \<lparr> b_left = 0, b_bottom = 0, b_right = 10, b_top = 10 \<rparr> \<rparr>, encodeBBOX = True, legendLayers = None,
       adjustBounds = (\<lambda>b. b), getImageSize = (\<lambda>b. \<lparr> size_w = 256, size_h = 256 \<rparr>),
       reverseAxisOrder = False,
       getFullRequestString = (\<lambda>p. ''http://wms?REQUEST=GetLegendGraphic'') \<rparr>"
        "\<lparr> isXType = (\<lambda>x t. x = t), hasSetUrl = (\<lambda>x. x = ''gx_legendimage''),
       toBBOX = (\<lambda>b r. ''0,0,10,10''), toArray = (\<lambda>b r. [0, 0, 10, 10]) \<rparr>"]
    C4_reconcile_idempotent
    [of "\<lparr> layerRecord = Some
      \<lparr> layer_map = Some \<lparr> extent = Some \<lparr> b_left = 0, b_bottom = 0, b_right = 10, b_top = 10 \<rparr> \<rparr>, encodeBBOX = True, legendLayers = None,
       adjustBounds = (\<lambda>b. b), getImageSize = (\<lambda>b. \<lparr> size_w = 256, size_h = 256 \<rparr>),
       reverseAxisOrder = False,
       getFullRequestString = (\<lambda>p. ''http://wms?REQUEST=GetLegendGraphic'') \<rparr>,
     itemXType = ''gx_legendimage'', items = [\<lparr> xtype = ''label'', url = None \<rparr>], layouts = 0 \<rparr>"
        "\<lparr> layer_map = Some \<lparr> extent = Some \<lparr> b_left = 0, b_bottom = 0, b_right = 10, b_top = 10 \<rparr> \<rparr>, encodeBBOX = True, legendLayers = None,
       adjustBounds = (\<lambda>b. b), getImageSize = (\<lambda>b. \<lparr> size_w = 256, size_h = 256 \<rparr>),
       reverseAxisOrder = False,
       getFullRequestString = (\<lambda>p. ''http://wms?REQUEST=GetLegendGraphic'') \<rparr>"
        "\<lparr> isXType = (\<lambda>x t. x = t), hasSetUrl = (\<lambda>x. x = ''gx_legendimage''),
       toBBOX = (\<lambda>b r. ''0,0,10,10''), toArray = (\<lambda>b r. [0, 0, 10, 10]) \<rparr>"]
  by (simp add: reconcileLegendItems_def getLegendUrl_def doLayout_def All_less_Suc)

end
